theory Spec2Isabelle
  imports Complex_Main "HOL-Library.Sublist" "HOL-Library.Log_Nat"
begin

section \<open>Conventions of the embedding\<close>

text \<open>
  The development embeds \<^verbatim>\<open>backend/services/ai.service.js\<close>.

  \<^item> A JavaScript number in the confidence scorer is a double: \<^verbatim>\<open>NaN\<close>, an infinity,
    or a finite value given as the rational it denotes. Every arithmetic operation rounds
    its exact result to the nearest double, a tie going to the even significand. The sign
    of zero is not modelled. The confidence handed to the store and the similarity scores
    of the store are numbers taken exactly.
  \<^item> A property that destructuring reads with a default is an \<^typ>\<open>'a option\<close>:
    \<open>None\<close> is \<^verbatim>\<open>undefined\<close>, for which the default is taken.
  \<^item> A JavaScript string is the list of its code units, here those below 256 (a
    \<^typ>\<open>string\<close>); a string argument that may be \<^verbatim>\<open>null\<close> or \<^verbatim>\<open>undefined\<close> is a
    \<^typ>\<open>string option\<close>.
  \<^item> A thrown exception is the \<open>Inl\<close> of a sum type; a \<^verbatim>\<open>try\<close> block is a case
    distinction on it.
  \<^item> The services outside the process (the embedding service, the graph store, the chat
    completion endpoint, the image host) are components of an explicit world; calls to the
    embedding service and to the store are appended to a log, in order.
  \<^item> \<^verbatim>\<open>datetime()\<close> stamps and console output are not modelled.
\<close>

section \<open>Numbers\<close>

text \<open>
  \<open>rnd x\<close> is the double nearest to the rational \<open>x\<close>: the exponent is that of \<open>x\<close>, not
  below -1022 (where the subnormal numbers begin); the significand is \<open>x\<close> scaled to 53
  bits and rounded half to even; the result overflows to an infinity when it reaches
  \<open>2 ^ 1024\<close>, that is when the exponent is above 1023, or is 1023 and the significand rounds
  up to \<open>2 ^ 53\<close>.
\<close>

datatype jsnum = NaN | PInf | NInf | Fin rat

definition ilog2 :: "rat \<Rightarrow> int" where
  \<comment> \<open>for \<open>x > 0\<close>, the exponent \<open>e\<close> with \<open>2 ^ e \<le> x < 2 ^ (e + 1)\<close>, from the bit lengths of
      the numerator and the denominator\<close>
  "ilog2 x =
     (let d = bitlen (fst (quotient_of x)) - bitlen (snd (quotient_of x))
      in if power_int 2 d \<le> x then d else d - 1)"

definition roundHalfEven :: "rat \<Rightarrow> int" where
  \<comment> \<open>the nearest integer, a tie going to the even one\<close>
  "roundHalfEven y =
     (let f = \<lfloor>y\<rfloor>; d = y - of_int f
      in if d < 1 / 2 then f else if d > 1 / 2 then f + 1
         else if even f then f else f + 1)"

definition expOf :: "rat \<Rightarrow> int" where
  \<comment> \<open>the exponent of the double nearest to \<open>a > 0\<close>, before a carry of the rounding\<close>
  "expOf a = max (- 1022) (ilog2 a)"

definition sigOf :: "rat \<Rightarrow> int" where
  \<comment> \<open>the significand: \<open>a\<close> in units of the last place, rounded\<close>
  "sigOf a = roundHalfEven (a / power_int 2 (expOf a - 52))"

definition signed :: "rat \<Rightarrow> jsnum \<Rightarrow> jsnum" where
  \<comment> \<open>\<open>v\<close> with the sign of \<open>x\<close> applied\<close>
  "signed x v =
     (if x \<ge> 0 then v
      else case v of Fin r \<Rightarrow> Fin (- r) | PInf \<Rightarrow> NInf | NInf \<Rightarrow> PInf | NaN \<Rightarrow> NaN)"

definition rnd :: "rat \<Rightarrow> jsnum" where
  "rnd x =
     (if x = 0 then Fin 0
      else if expOf \<bar>x\<bar> > 1023 \<or> (expOf \<bar>x\<bar> = 1023 \<and> sigOf \<bar>x\<bar> \<ge> 2 ^ 53)
        then signed x PInf
      else signed x (Fin (of_int (sigOf \<bar>x\<bar>) * power_int 2 (expOf \<bar>x\<bar> - 52))))"

fun jadd :: "jsnum \<Rightarrow> jsnum \<Rightarrow> jsnum" where
  \<comment> \<open>\<^verbatim>\<open>x + y\<close>\<close>
  "jadd (Fin a) (Fin b) = rnd (a + b)"
| "jadd NaN y = NaN"
| "jadd x NaN = NaN"
| "jadd PInf NInf = NaN"
| "jadd NInf PInf = NaN"
| "jadd PInf y = PInf"
| "jadd NInf y = NInf"
| "jadd (Fin a) y = y"

fun jmul :: "jsnum \<Rightarrow> jsnum \<Rightarrow> jsnum" where
  \<comment> \<open>\<^verbatim>\<open>x * y\<close>\<close>
  "jmul (Fin a) (Fin b) = rnd (a * b)"
| "jmul NaN y = NaN"
| "jmul x NaN = NaN"
| "jmul (Fin a) y = (if a = 0 then NaN else signed a y)"
| "jmul x (Fin b) = (if b = 0 then NaN else signed b x)"
| "jmul PInf y = y"
| "jmul NInf y = signed (- 1) y"

fun jdiv :: "jsnum \<Rightarrow> jsnum \<Rightarrow> jsnum" where
  \<comment> \<open>\<^verbatim>\<open>x / y\<close>, a zero divisor being positive\<close>
  "jdiv (Fin a) (Fin b) =
     (if b = 0 then (if a = 0 then NaN else signed a PInf) else rnd (a / b))"
| "jdiv NaN y = NaN"
| "jdiv x NaN = NaN"
| "jdiv (Fin a) y = Fin 0"
| "jdiv x (Fin b) = signed b x"
| "jdiv x y = NaN"

fun jle :: "jsnum \<Rightarrow> jsnum \<Rightarrow> bool" where
  \<comment> \<open>\<^verbatim>\<open>x <= y\<close>: false when either is \<^verbatim>\<open>NaN\<close>\<close>
  "jle (Fin a) (Fin b) = (a \<le> b)"
| "jle NaN y = False"
| "jle x NaN = False"
| "jle NInf y = True"
| "jle x PInf = True"
| "jle x y = False"

definition jge :: "jsnum \<Rightarrow> jsnum \<Rightarrow> bool" where
  \<comment> \<open>\<^verbatim>\<open>x >= y\<close>\<close>
  "jge x y = jle y x"

definition jmax :: "jsnum \<Rightarrow> jsnum \<Rightarrow> jsnum" where
  \<comment> \<open>\<^verbatim>\<open>Math.max(x, y)\<close>\<close>
  "jmax x y = (if x = NaN \<or> y = NaN then NaN else if jle x y then y else x)"

definition jmin :: "jsnum \<Rightarrow> jsnum \<Rightarrow> jsnum" where
  \<comment> \<open>\<^verbatim>\<open>Math.min(x, y)\<close>\<close>
  "jmin x y = (if x = NaN \<or> y = NaN then NaN else if jle x y then x else y)"

definition jsRound :: "jsnum \<Rightarrow> jsnum" where
  \<comment> \<open>\<^verbatim>\<open>Math.round(x)\<close>: the nearest integer, a tie going up; exact\<close>
  "jsRound x = (case x of Fin a \<Rightarrow> Fin (of_int \<lfloor>a + 1 / 2\<rfloor>) | _ \<Rightarrow> x)"


definition orDefault :: "'a \<Rightarrow> 'a option \<Rightarrow> 'a" where
  \<comment> \<open>The destructuring default \<^verbatim>\<open>{ field = d } = params\<close>.\<close>
  "orDefault d v = (case v of None \<Rightarrow> d | Some x \<Rightarrow> x)"



section \<open>Strings and regular expressions\<close>

definition isLineTerminator :: "char \<Rightarrow> bool" where
  "isLineTerminator c = (of_char c \<in> {10, 13 :: nat})"

definition isWhiteSpace :: "char \<Rightarrow> bool" where
  \<comment> \<open>\<^verbatim>\<open>\s\<close>, and what \<^verbatim>\<open>trim\<close> strips: tab, the line terminators, VT, FF, space, NBSP\<close>
  "isWhiteSpace c = (of_char c \<in> {9, 10, 11, 12, 13, 32, 160 :: nat})"

definition isDigit :: "char \<Rightarrow> bool" where
  "isDigit c = (48 \<le> (of_char c :: nat) \<and> (of_char c :: nat) \<le> 57)"

definition dot :: "char \<Rightarrow> bool" where
  \<comment> \<open>\<^verbatim>\<open>.\<close> without the \<^verbatim>\<open>s\<close> flag\<close>
  "dot c = (\<not> isLineTerminator c)"

definition anyChar :: "char \<Rightarrow> bool" where
  \<comment> \<open>\<^verbatim>\<open>[\s\S]\<close>\<close>
  "anyChar c = True"

definition toLowerChar :: "char \<Rightarrow> char" where
  "toLowerChar c =
     (let n = (of_char c :: nat)
      in if (65 \<le> n \<and> n \<le> 90) \<or> (192 \<le> n \<and> n \<le> 222 \<and> n \<noteq> 215)
         then char_of (n + 32) else c)"

definition toLowerCase :: "string \<Rightarrow> string" where
  "toLowerCase s = map toLowerChar s"

definition toUpperChar :: "char \<Rightarrow> char" where
  \<comment> \<open>the upper case of a code unit when it is below 256, else the code unit itself\<close>
  "toUpperChar c =
     (let n = (of_char c :: nat)
      in if (97 \<le> n \<and> n \<le> 122) \<or> (224 \<le> n \<and> n \<le> 254 \<and> n \<noteq> 247)
         then char_of (n - 32) else c)"

definition capitalize :: "string \<Rightarrow> string" where
  \<comment> \<open>\<^verbatim>\<open>apoc.text.capitalize\<close>: the first letter in upper case\<close>
  "capitalize s = (case s of [] \<Rightarrow> [] | c # cs \<Rightarrow> toUpperChar c # cs)"

fun splitOn :: "char \<Rightarrow> string \<Rightarrow> string list" where
  \<comment> \<open>\<^verbatim>\<open>split(s, ' ')\<close> of Cypher\<close>
  "splitOn c [] = [[]]"
| "splitOn c (x # xs) =
     (if x = c then [] # splitOn c xs
      else (case splitOn c xs of [] \<Rightarrow> [[x]] | w # ws \<Rightarrow> (x # w) # ws))"

definition trim :: "string \<Rightarrow> string" where
  "trim s = rev (dropWhile isWhiteSpace (rev (dropWhile isWhiteSpace s)))"

fun removeFirst :: "string \<Rightarrow> string \<Rightarrow> string" where
  \<comment> \<open>\<^verbatim>\<open>s.replace(pat, '')\<close> with a string pattern: the first occurrence goes\<close>
  "removeFirst pat [] = []"
| "removeFirst pat (c # cs) =
     (if prefix pat (c # cs) then drop (length pat) (c # cs) else c # removeFirst pat cs)"

text \<open>
  The regular expressions of the source are sequences of literals, character classes,
  quantified character classes and the line-start anchor. \<open>Many P lo greedy\<close> is the class
  \<open>P\<close> repeated at least \<open>lo\<close> times, greedy or lazy. The matcher backtracks in the order
  of the ECMAScript matcher and yields the text left after the first match it finds.
\<close>

datatype atom =
    Lit string
  | Cls "char \<Rightarrow> bool"
  | Many "char \<Rightarrow> bool" nat bool
  | LineStart

fun firstSome :: "(nat \<Rightarrow> 'a option) \<Rightarrow> nat list \<Rightarrow> 'a option" where
  "firstSome f [] = None"
| "firstSome f (k # ks) = (case f k of Some r \<Rightarrow> Some r | None \<Rightarrow> firstSome f ks)"

definition counts :: "nat \<Rightarrow> nat \<Rightarrow> bool \<Rightarrow> nat list" where
  \<comment> \<open>the repetition counts a quantifier tries, in its order of preference\<close>
  "counts lo hi greedy = (if greedy then rev [lo ..< Suc hi] else [lo ..< Suc hi])"

definition atLineStart :: "char option \<Rightarrow> bool" where
  \<comment> \<open>\<^verbatim>\<open>^\<close> under the \<^verbatim>\<open>m\<close> flag; the argument is the code unit before the position\<close>
  "atLineStart prev = (case prev of None \<Rightarrow> True | Some c \<Rightarrow> isLineTerminator c)"

definition prevAfter :: "char option \<Rightarrow> string \<Rightarrow> nat \<Rightarrow> char option" where
  "prevAfter prev s k = (if k = 0 then prev else Some (s ! (k - 1)))"

primrec matchAt :: "atom list \<Rightarrow> char option \<Rightarrow> string \<Rightarrow> string option" where
  "matchAt [] prev s = Some s"
| "matchAt (a # as) prev s =
     (case a of
        Lit l \<Rightarrow>
          (if prefix l s then matchAt as (prevAfter prev s (length l)) (drop (length l) s)
           else None)
      | Cls P \<Rightarrow>
          (case s of [] \<Rightarrow> None
           | c # cs \<Rightarrow> if P c then matchAt as (Some c) cs else None)
      | Many P lo greedy \<Rightarrow>
          firstSome (\<lambda>k. matchAt as (prevAfter prev s k) (drop k s))
            (counts lo (length (takeWhile P s)) greedy)
      | LineStart \<Rightarrow> (if atLineStart prev then matchAt as prev s else None))"

fun scanTest :: "atom list \<Rightarrow> char option \<Rightarrow> string \<Rightarrow> bool" where
  "scanTest re prev [] = (matchAt re prev [] \<noteq> None)"
| "scanTest re prev (c # cs) = (matchAt re prev (c # cs) \<noteq> None \<or> scanTest re (Some c) cs)"

definition regexTest :: "atom list \<Rightarrow> string \<Rightarrow> bool" where
  \<comment> \<open>\<^verbatim>\<open>re.test(s)\<close> on a fresh regular expression object\<close>
  "regexTest re s = scanTest re None s"

function scanCount :: "atom list \<Rightarrow> char option \<Rightarrow> string \<Rightarrow> nat" where
  "scanCount re prev s =
     (case matchAt re prev s of
        Some rest \<Rightarrow>
          (if length rest < length s
           then Suc (scanCount re (prevAfter prev s (length s - length rest)) rest)
           else (case s of [] \<Rightarrow> 1 | c # cs \<Rightarrow> Suc (scanCount re (Some c) cs)))
      | None \<Rightarrow> (case s of [] \<Rightarrow> 0 | c # cs \<Rightarrow> scanCount re (Some c) cs))"
  by pat_completeness auto
termination
  by (relation "measure (\<lambda>(re, prev, s). length s)") auto

definition matchCount :: "atom list \<Rightarrow> string \<Rightarrow> nat" where
  \<comment> \<open>\<^verbatim>\<open>(s.match(re) || []).length\<close> for a \<^verbatim>\<open>g\<close> expression\<close>
  "matchCount re s = scanCount re None s"


section \<open>The formatting quality analyzer\<close>

definition reMainTitle :: "atom list" where
  "reMainTitle = [Lit ''###'', Many isWhiteSpace 1 True, Many dot 1 True]"

definition reSubtitle :: "atom list" where
  "reSubtitle = [Lit ''####'', Many isWhiteSpace 1 True, Many dot 1 True]"

definition reBulletPoint :: "atom list" where
  "reBulletPoint =
     [LineStart, Many isWhiteSpace 0 True, Cls (\<lambda>c. c = CHR ''-'' \<or> c = CHR ''*''),
      Many isWhiteSpace 1 True, Many dot 1 True]"

definition reNumberedList :: "atom list" where
  "reNumberedList =
     [LineStart, Many isDigit 1 True, Lit ''.'', Many isWhiteSpace 1 True, Many dot 1 True]"

definition reBoldText :: "atom list" where
  "reBoldText = [Lit ''**'', Many dot 1 False, Lit ''**'']"

definition reCodeBlock :: "atom list" where
  "reCodeBlock = [Lit ''```'', Many anyChar 0 False, Lit ''```'']"

definition reInlineCode :: "atom list" where
  "reInlineCode = [Lit ''`'', Many dot 1 False, Lit ''`'']"

definition reFormula :: "atom list" where
  "reFormula = [Lit ''['', Many dot 1 False, Lit '']'']"

datatype detail = Flag bool | Count nat

record formatting_result =
  score :: nat
  details :: "(string \<times> detail) list"

definition checkFormattingQuality :: "string option \<Rightarrow> formatting_result" where
  "checkFormattingQuality text =
     (case text of
        None \<Rightarrow> \<lparr> score = 0, details = [] \<rparr>
      | Some t \<Rightarrow>
          if t = [] then \<lparr> score = 0, details = [] \<rparr>
          else
            let hasMainTitle = regexTest reMainTitle t;
                hasSubtitles = regexTest reSubtitle t;
                hasBulletPoints = regexTest reBulletPoint t;
                hasNumberedLists = regexTest reNumberedList t;
                hasBoldText = regexTest reBoldText t;
                hasCodeBlocks = regexTest reCodeBlock t;
                hasInlineCode = regexTest reInlineCode t;
                hasFormulas = regexTest reFormula t;
                titleCount = matchCount reMainTitle t;
                subtitleCount = matchCount reSubtitle t
            in \<lparr> score = (if hasMainTitle then 15 else 0)
                     + (if hasSubtitles then 15 else 0)
                     + (if hasBulletPoints then 10 else 0)
                     + (if hasNumberedLists then 10 else 0)
                     + (if hasBoldText then 10 else 0)
                     + (if hasCodeBlocks then 5 else 0)
                     + (if hasInlineCode then 5 else 0)
                     + (if hasFormulas then 5 else 0)
                     + (if titleCount \<ge> 1 then 5 else 0)
                     + (if subtitleCount \<ge> 2 then 10 else 0),
                 details =
                   [(''hasMainTitle'', Flag hasMainTitle),
                    (''hasSubtitles'', Flag hasSubtitles),
                    (''hasBulletPoints'', Flag hasBulletPoints),
                    (''hasNumberedLists'', Flag hasNumberedLists),
                    (''hasBoldText'', Flag hasBoldText),
                    (''hasCodeBlocks'', Flag hasCodeBlocks),
                    (''hasInlineCode'', Flag hasInlineCode),
                    (''hasFormulas'', Flag hasFormulas),
                    (''titleCount'', Count titleCount),
                    (''subtitleCount'', Count subtitleCount)] \<rparr>)"

definition detailFlags :: "string list" where
  \<comment> \<open>the names of the boolean properties of \<^verbatim>\<open>details\<close>\<close>
  "detailFlags =
     [''hasMainTitle'', ''hasSubtitles'', ''hasBulletPoints'', ''hasNumberedLists'',
      ''hasBoldText'', ''hasCodeBlocks'', ''hasInlineCode'', ''hasFormulas'']"


section \<open>The confidence scorer\<close>

record params =
  aiConfidence :: "jsnum option"
  hasContext :: "bool option"
  hasSelectedText :: "bool option"
  hasVisualContext :: "bool option"
  isVisionMode :: "bool option"
  responseLength :: "jsnum option"
  hasFormatting :: "jsnum option"
    \<comment> \<open>what \<^verbatim>\<open>hasFormatting.score\<close> is in arithmetic: the score of the object passed, and
        \<^verbatim>\<open>NaN\<close> for an object without a numeric score; the default object is
        \<^verbatim>\<open>{ score: 0 }\<close>. The value passed is an object, as the analyzer returns it:
        \<^verbatim>\<open>null\<close>, on which the property read throws, is not among the inputs.\<close>
  contentType :: "string option"
  isVerifiedSource :: "bool option"

record component =
  weight :: string
  contribution :: jsnum

record ai_component = component +
  ai_value :: jsnum

record summary_part =
  totalScore :: jsnum
  reliability :: string

record breakdown_obj =
  b_aiConfidence :: ai_component
  contextQuality :: component
  responseQuality :: component
  formattingQuality :: component
  summary :: summary_part

record confidence_result =
  finalScore :: jsnum
  breakdown :: breakdown_obj

definition aiWeight :: "params \<Rightarrow> jsnum" where
  \<comment> \<open>the literals \<^verbatim>\<open>0.50\<close> and \<^verbatim>\<open>0.35\<close> are the doubles nearest to them\<close>
  "aiWeight p = (if orDefault False (isVerifiedSource p) then rnd (50 / 100) else rnd (35 / 100))"

definition aiScore :: "params \<Rightarrow> jsnum" where
  "aiScore p = jmul (jmin (Fin 100) (jmax (Fin 0) (orDefault (Fin 85) (aiConfidence p)))) (aiWeight p)"

definition contextScore :: "params \<Rightarrow> jsnum" where
  "contextScore p =
     (let s0 = Fin 0;
          s1 = (if orDefault False (hasSelectedText p) then jadd s0 (Fin 12) else s0);
          s2 = (if orDefault False (hasContext p) then jadd s1 (Fin 8) else s1);
          s3 = (if orDefault False (hasVisualContext p) then jadd s2 (Fin 5) else s2)
      in jmin (Fin 25) s3)"

definition responseScore :: "params \<Rightarrow> jsnum" where
  "responseScore p =
     (let n = orDefault (Fin 0) (responseLength p)
      in if jge n (Fin 400) then Fin 20 else if jge n (Fin 200) then Fin 15
         else if jge n (Fin 100) then Fin 10 else Fin 5)"

definition formattingScore :: "params \<Rightarrow> jsnum" where
  "formattingScore p = jmul (jdiv (orDefault (Fin 0) (hasFormatting p)) (Fin 100)) (Fin 20)"

definition sourceBonus :: "params \<Rightarrow> jsnum" where
  "sourceBonus p = (if orDefault False (isVerifiedSource p) then Fin 10 else Fin 0)"

definition roundedSum :: "params \<Rightarrow> jsnum" where
  \<comment> \<open>the local constant \<^verbatim>\<open>finalScore\<close>, before it is clamped\<close>
  "roundedSum p =
     jsRound (jadd (jadd (jadd (jadd (aiScore p) (contextScore p)) (responseScore p))
                      (formattingScore p)) (sourceBonus p))"

definition weightLabel :: "params \<Rightarrow> string" where
  \<comment> \<open>the template \<^verbatim>\<open>`${aiWeight * 100}%`\<close>: the product is the double 50 or 35, printed
      without a fraction\<close>
  "weightLabel p = (if orDefault False (isVerifiedSource p) then ''50%'' else ''35%'')"

definition reliabilityLabel :: "jsnum \<Rightarrow> string" where
  "reliabilityLabel s =
     (if jge s (Fin 85) then ''High'' else if jge s (Fin 70) then ''Good''
      else if jge s (Fin 50) then ''Moderate'' else ''Low'')"

definition calculateConfidence :: "params \<Rightarrow> confidence_result" where
  "calculateConfidence p =
     \<lparr> finalScore = jmin (Fin 100) (jmax (Fin 0) (roundedSum p)),
       breakdown =
         \<lparr> b_aiConfidence =
             \<lparr> weight = weightLabel p,
               contribution = jsRound (aiScore p),
               ai_value = jsRound (jdiv (aiScore p) (aiWeight p)) \<rparr>,
           contextQuality =
             \<lparr> weight = ''25%'', contribution = jsRound (contextScore p) \<rparr>,
           responseQuality =
             \<lparr> weight = ''20%'', contribution = jsRound (responseScore p) \<rparr>,
           formattingQuality =
             \<lparr> weight = ''20%'', contribution = jsRound (formattingScore p) \<rparr>,
           summary =
             \<lparr> totalScore = jmin (Fin 100) (jmax (Fin 0) (roundedSum p)),
               reliability = reliabilityLabel (roundedSum p) \<rparr> \<rparr> \<rparr>"


definition scenarioParams :: params where
  \<comment> \<open>model confidence 85, unverified, selected text and general context present, no visual
      context, 500 characters, formatting score 100\<close>
  "scenarioParams =
     \<lparr> aiConfidence = Some (Fin 85), hasContext = Some True, hasSelectedText = Some True,
       hasVisualContext = Some False, isVisionMode = None, responseLength = Some (Fin 500),
       hasFormatting = Some (Fin 100), contentType = None, isVerifiedSource = Some False \<rparr>"

definition nanParams :: params where
  "nanParams = scenarioParams\<lparr> aiConfidence := Some NaN \<rparr>"

definition noScoreParams :: params where
  \<comment> \<open>the scenario with a formatting object that has no numeric score\<close>
  "noScoreParams = scenarioParams\<lparr> hasFormatting := Some NaN \<rparr>"

definition ninetyParams :: params where
  "ninetyParams = scenarioParams\<lparr> aiConfidence := Some (Fin 90) \<rparr>"

definition outOfRangeParams :: params where
  "outOfRangeParams = scenarioParams\<lparr> aiConfidence := Some (Fin 150) \<rparr>"


section \<open>The world outside the process\<close>

text \<open>
  What the code can throw: \<^verbatim>\<open>new Error(message)\<close>, a \<^verbatim>\<open>TypeError\<close> of the runtime, a
  failure of the store, and the error of an HTTP request with its
  \<^verbatim>\<open>err.response?.status\<close>.
\<close>

datatype exn =
    Error string
  | TypeError
  | StoreError
  | HttpError "nat option"

text \<open>
  The value of a statement parameter, of a node property and of a record field; a binding
  object such as \<^verbatim>\<open>{ contentId, searchKey }\<close> is the list of its properties.
\<close>

datatype pval = PNull | PStr string | PNum rat | PVec "rat list"

type_synonym bindings = "(string \<times> pval) list"

type_synonym row = "(string \<times> pval) list"

definition param :: "(string \<times> pval) list \<Rightarrow> string \<Rightarrow> pval" where
  "param b k = (case map_of b k of None \<Rightarrow> PNull | Some v \<Rightarrow> v)"

definition optStr :: "string option \<Rightarrow> pval" where
  "optStr v = (case v of None \<Rightarrow> PNull | Some s \<Rightarrow> PStr s)"

text \<open>
  The five Cypher statements of the source, named by what they do: the lookup of a Doubt
  linked to a content, the lookup of a Doubt by key alone, the query of the vector index,
  the merge of the question subgraph, and the upsert of a Doubt.
\<close>

datatype statement =
    ContentDoubtLookup
  | GlobalDoubtLookup
  | VectorQuery
  | SubgraphMerge
  | DoubtUpsert

record doubt_node =
  d_queryKey :: string
  d_query :: pval
  d_context :: pval
  d_answer :: pval
  d_confidence :: pval
  d_relatesTo :: "string list"

record question_node =
  q_text :: string
  q_embedding :: pval

record answer_node =
  a_text :: string
  a_confidence :: pval
  a_source :: pval

text \<open>
  A node of the knowledge subgraph is addressed by its natural key: the text of a question
  or an answer, the identifier of a course or a content, the name of a concept.
\<close>

datatype node =
    QuestionNode string
  | AnswerNode string
  | CourseNode string
  | ContentNode string
  | ConceptNode string

datatype rel = ANSWERS | RELATES_TO | GENERATED_FROM_RESOURCE | PART_OF

text \<open>
  The store holds the Doubt nodes with their links to contents, the identifiers of the
  Content and Course nodes, the Question, Answer and Concept nodes, the edges between them,
  and the similarity by which the vector index ranks the embedding of a question against
  the embedding queried.
\<close>

record graph =
  doubts :: "doubt_node list"
  contentIds :: "string list"
  courseIds :: "string list"
  questions :: "question_node list"
  answers :: "answer_node list"
  concepts :: "string list"
  edges :: "(node \<times> rel \<times> node) list"
  similarity :: "rat list \<Rightarrow> rat list \<Rightarrow> rat"

definition atLeast80 :: "pval \<Rightarrow> bool" where
  \<comment> \<open>\<^verbatim>\<open>d.confidence >= 80\<close>; a comparison that is not between numbers does not hold\<close>
  "atLeast80 v = (case v of PNum c \<Rightarrow> c \<ge> 80 | _ \<Rightarrow> False)"

definition doubtRow :: "doubt_node \<Rightarrow> row" where
  "doubtRow d = [(''answer'', d_answer d), (''confidence'', d_confidence d)]"

definition linkedTo :: "pval \<Rightarrow> doubt_node \<Rightarrow> bool" where
  "linkedTo c d = (case c of PStr cid \<Rightarrow> cid \<in> set (d_relatesTo d) | _ \<Rightarrow> False)"

definition contentDoubtRows :: "graph \<Rightarrow> bindings \<Rightarrow> row list" where
  \<comment> \<open>\<^verbatim>\<open>MATCH (c:Content {id: $contentId})<-[:RELATES_TO]-(d:Doubt {queryKey: $searchKey})
      WHERE d.confidence >= 80 RETURN d.answer as answer, d.confidence as confidence LIMIT 1\<close>\<close>
  "contentDoubtRows g b =
     take 1 (map doubtRow
       (filter (\<lambda>d. linkedTo (param b ''contentId'') d
                  \<and> PStr (d_queryKey d) = param b ''searchKey''
                  \<and> atLeast80 (d_confidence d)) (doubts g)))"

definition globalDoubtRows :: "graph \<Rightarrow> bindings \<Rightarrow> row list" where
  \<comment> \<open>\<^verbatim>\<open>MATCH (d:Doubt) WHERE d.queryKey = $searchKey AND d.confidence >= 80
      RETURN d.answer as answer, d.confidence as confidence LIMIT 1\<close>\<close>
  "globalDoubtRows g b =
     take 1 (map doubtRow
       (filter (\<lambda>d. PStr (d_queryKey d) = param b ''searchKey''
                  \<and> atLeast80 (d_confidence d)) (doubts g)))"

definition scored :: "graph \<Rightarrow> rat list \<Rightarrow> (question_node \<times> rat) list" where
  \<comment> \<open>the questions that carry an embedding, each with its similarity to \<open>e\<close>\<close>
  "scored g e =
     List.map_filter
       (\<lambda>n. case q_embedding n of PVec v \<Rightarrow> Some (n, similarity g e v) | _ \<Rightarrow> None)
       (questions g)"

definition queryNodes :: "graph \<Rightarrow> nat \<Rightarrow> rat list \<Rightarrow> (question_node \<times> rat) list" where
  \<comment> \<open>\<^verbatim>\<open>db.index.vector.queryNodes(index, k, e)\<close>: the \<open>k\<close> nearest questions\<close>
  "queryNodes g k e = take k (sort_key (\<lambda>h. - snd h) (scored g e))"

definition answerRows :: "graph \<Rightarrow> question_node \<times> rat \<Rightarrow> (rat \<times> row) list" where
  "answerRows g h =
     map (\<lambda>a. (snd h, [(''question'', PStr (q_text (fst h))), (''answer'', PStr (a_text a)),
                       (''confidence'', PNum (snd h * 100))]))
         (filter (\<lambda>a. (QuestionNode (q_text (fst h)), ANSWERS, AnswerNode (a_text a))
                         \<in> set (edges g))
            (answers g))"

definition vectorRows :: "graph \<Rightarrow> bindings \<Rightarrow> row list" where
  \<comment> \<open>\<^verbatim>\<open>CALL db.index.vector.queryNodes('doubt_vector_index', 5, $embedding)
      YIELD node, score WHERE score >= 0.80 MATCH (node)-[:ANSWERS]->(a:Answer)
      RETURN node.text as question, a.text as answer, score * 100 as confidence
      ORDER BY score DESC LIMIT 1\<close>\<close>
  "vectorRows g b =
     (case param b ''embedding'' of
        PVec e \<Rightarrow>
          map snd (take 1 (sort_key (\<lambda>r. - fst r)
            (concat (map (answerRows g)
               (filter (\<lambda>h. snd h \<ge> 80 / 100) (queryNodes g 5 e))))))
      | _ \<Rightarrow> [])"

definition setDoubt :: "bindings \<Rightarrow> doubt_node \<Rightarrow> doubt_node" where
  "setDoubt b d =
     d\<lparr> d_query := param b ''query'', d_context := param b ''context'',
        d_answer := param b ''answer'', d_confidence := param b ''confidence'' \<rparr>"

definition linkContent :: "graph \<Rightarrow> bindings \<Rightarrow> doubt_node \<Rightarrow> doubt_node" where
  "linkContent g b d =
     (case param b ''contentId'' of
        PStr cid \<Rightarrow>
          if cid \<in> set (contentIds g) \<and> cid \<notin> set (d_relatesTo d)
          then d\<lparr> d_relatesTo := d_relatesTo d @ [cid] \<rparr> else d
      | _ \<Rightarrow> d)"

definition newDoubt :: "string \<Rightarrow> doubt_node" where
  "newDoubt k =
     \<lparr> d_queryKey = k, d_query = PNull, d_context = PNull, d_answer = PNull,
       d_confidence = PNull, d_relatesTo = [] \<rparr>"

definition upsertDoubt :: "graph \<Rightarrow> bindings \<Rightarrow> graph" where
  \<comment> \<open>\<^verbatim>\<open>MERGE (d:Doubt {queryKey: $queryKey}) SET d.query = $query, d.context = $context,
      d.answer = $answer, d.confidence = $confidence WITH d
      OPTIONAL MATCH (c:Content {id: $contentId})
      FOREACH (... WHEN c IS NOT NULL ... | MERGE (d)-[:RELATES_TO]->(c))\<close>\<close>
  "upsertDoubt g b =
     (case param b ''queryKey'' of
        PStr k \<Rightarrow>
          let ds = (if k \<in> set (map d_queryKey (doubts g)) then doubts g
                    else doubts g @ [newDoubt k])
          in g\<lparr> doubts :=
                 map (\<lambda>d. if d_queryKey d = k then linkContent g b (setDoubt b d) else d) ds \<rparr>
      | _ \<Rightarrow> g)"

definition upsertQuestion :: "string \<Rightarrow> pval \<Rightarrow> question_node list \<Rightarrow> question_node list" where
  \<comment> \<open>\<^verbatim>\<open>MERGE (q:Question {text: $query}) SET q.embedding = $embedding\<close>\<close>
  "upsertQuestion t e qs =
     (if t \<in> set (map q_text qs)
      then map (\<lambda>n. if q_text n = t then n\<lparr> q_embedding := e \<rparr> else n) qs
      else qs @ [\<lparr> q_text = t, q_embedding = e \<rparr>])"

definition upsertAnswer :: "string \<Rightarrow> pval \<Rightarrow> answer_node list \<Rightarrow> answer_node list" where
  \<comment> \<open>\<^verbatim>\<open>MERGE (a:Answer {text: $answer})
      SET a.confidence = $confidence, a.source = "AI_GENERATED"\<close>\<close>
  "upsertAnswer t c as =
     (if t \<in> set (map a_text as)
      then map (\<lambda>n. if a_text n = t
                     then n\<lparr> a_confidence := c, a_source := PStr ''AI_GENERATED'' \<rparr> else n) as
      else as @ [\<lparr> a_text = t, a_confidence = c, a_source = PStr ''AI_GENERATED'' \<rparr>])"

definition addEdge :: "node \<times> rel \<times> node \<Rightarrow> graph \<Rightarrow> graph" where
  \<comment> \<open>\<^verbatim>\<open>MERGE (x)-[:R]->(y)\<close> between two nodes that exist\<close>
  "addEdge e g = (if e \<in> set (edges g) then g else g\<lparr> edges := edges g @ [e] \<rparr>)"

definition conceptNames :: "string \<Rightarrow> string list" where
  \<comment> \<open>\<^verbatim>\<open>UNWIND split($query, ' ') as word WHERE size(word) > 5\<close>, each word
      capitalized\<close>
  "conceptNames q = map capitalize (filter (\<lambda>word. length word > 5) (splitOn (CHR '' '') q))"

definition mergeConcept :: "string \<Rightarrow> string \<Rightarrow> graph \<Rightarrow> string \<Rightarrow> graph" where
  \<comment> \<open>\<^verbatim>\<open>MERGE (con:Concept {name: ...}) MERGE (q)-[:RELATES_TO]->(con)
      MERGE (con)-[:PART_OF]->(c)\<close>\<close>
  "mergeConcept q cid g n =
     addEdge (ConceptNode n, PART_OF, CourseNode cid)
       (addEdge (QuestionNode q, RELATES_TO, ConceptNode n)
          (g\<lparr> concepts := (if n \<in> set (concepts g) then concepts g else concepts g @ [n]) \<rparr>))"

definition mergeContent :: "string \<Rightarrow> string \<Rightarrow> bindings \<Rightarrow> graph \<Rightarrow> row list \<times> graph" where
  \<comment> \<open>from \<^verbatim>\<open>MATCH (r:Content {id: $contentId})\<close> on: no row goes on when no content has
      the identifier\<close>
  "mergeContent q cid b g =
     (case param b ''contentId'' of
        PStr rid \<Rightarrow>
          if rid \<in> set (contentIds g) then
            (map (\<lambda>n. [(''saved'', PStr q)]) (conceptNames q),
             foldl (mergeConcept q cid)
               (addEdge (QuestionNode q, GENERATED_FROM_RESOURCE, ContentNode rid) g)
               (conceptNames q))
          else ([], g)
      | _ \<Rightarrow> ([], g))"

definition mergeCourse :: "string \<Rightarrow> bindings \<Rightarrow> graph \<Rightarrow> row list \<times> graph" where
  \<comment> \<open>from \<^verbatim>\<open>MATCH (c:Course {id: $courseId})\<close> on: no row goes on when no course has
      the identifier\<close>
  "mergeCourse q b g =
     (case param b ''courseId'' of
        PStr cid \<Rightarrow>
          if cid \<in> set (courseIds g)
          then mergeContent q cid b (addEdge (QuestionNode q, RELATES_TO, CourseNode cid) g)
          else ([], g)
      | _ \<Rightarrow> ([], g))"

definition mergedPair :: "graph \<Rightarrow> string \<Rightarrow> string \<Rightarrow> pval \<Rightarrow> pval \<Rightarrow> graph" where
  \<comment> \<open>\<^verbatim>\<open>MERGE (q:Question {text: $query}) SET q.embedding = $embedding
      MERGE (a:Answer {text: $answer}) SET a.confidence = $confidence, a.source = ...
      MERGE (q)-[:ANSWERS]->(a)\<close>\<close>
  "mergedPair g q a e c =
     addEdge (QuestionNode q, ANSWERS, AnswerNode a)
       (g\<lparr> questions := upsertQuestion q e (questions g),
            answers := upsertAnswer a c (answers g) \<rparr>)"

definition mergeSubgraph :: "graph \<Rightarrow> bindings \<Rightarrow> row list \<times> graph" where
  \<comment> \<open>the statement of \<^verbatim>\<open>saveToKnowledgeGraph\<close>: the question, the answer and the edge
      between them, then the clauses from the \<^verbatim>\<open>MATCH\<close> of the course on\<close>
  "mergeSubgraph g b =
     (case (param b ''query'', param b ''answer'') of
        (PStr q, PStr a) \<Rightarrow>
          mergeCourse q b (mergedPair g q a (param b ''embedding'') (param b ''confidence''))
      | _ \<Rightarrow> ([], g))"

definition evalStatement :: "graph \<Rightarrow> statement \<Rightarrow> bindings \<Rightarrow> row list \<times> graph" where
  \<comment> \<open>Modelled from the spec: the graph store behind \<^verbatim>\<open>runNeo4jQuery\<close>, which is not among
      the sources. It looks nodes up by exact property, yields the nearest questions of the
      vector index with their similarity, and merges by find-or-create-and-update. The
      rows and the effect of each statement follow its Cypher text in the source.\<close>
  "evalStatement g st b =
     (case st of
        ContentDoubtLookup \<Rightarrow> (contentDoubtRows g b, g)
      | GlobalDoubtLookup \<Rightarrow> (globalDoubtRows g b, g)
      | VectorQuery \<Rightarrow> (vectorRows g b, g)
      | SubgraphMerge \<Rightarrow> mergeSubgraph g b
      | DoubtUpsert \<Rightarrow> ([], upsertDoubt g b))"

text \<open>
  The embedding service either cannot be reached or answers with \<^verbatim>\<open>success\<close> and
  \<^verbatim>\<open>embedding\<close>. The store raises on a statement (it cannot be reached, or it
  refuses the statement) or runs it.
\<close>

datatype embed_reply = Unreachable | Reply bool "rat list option"

datatype call = EmbeddingRequest string | StoreCall statement bindings

record world =
  graphStore :: graph
  embeddingService :: "string \<Rightarrow> embed_reply"
  storeRaises :: "statement \<Rightarrow> bool"
  calls :: "call list"

definition getEmbedding :: "string \<Rightarrow> world \<Rightarrow> rat list option \<times> world" where
  "getEmbedding t w =
     (case embeddingService w t of
        Unreachable \<Rightarrow> None
      | Reply success embedding \<Rightarrow> if success then embedding else None,
      w\<lparr> calls := calls w @ [EmbeddingRequest t] \<rparr>)"

definition runNeo4jQuery :: "statement \<Rightarrow> bindings \<Rightarrow> world \<Rightarrow> (exn + row list) \<times> world" where
  \<comment> \<open>Modelled from the spec: \<^verbatim>\<open>runNeo4jQuery\<close> of \<^verbatim>\<open>config/neo4j.config.js\<close>, which is
      not among the sources. It sends the statement with its bindings to the store and
      returns the records, or raises when the store fails on the statement.\<close>
  "runNeo4jQuery st b w =
     (let w' = w\<lparr> calls := calls w @ [StoreCall st b] \<rparr>
      in if storeRaises w st then (Inl StoreError, w')
         else (Inr (fst (evalStatement (graphStore w) st b)),
               w'\<lparr> graphStore := snd (evalStatement (graphStore w) st b) \<rparr>))"


section \<open>Lookups and writes on the knowledge store\<close>

text \<open>
  \<open>KGMiss\<close> is the object \<^verbatim>\<open>{ match: false, confidence: 0 }\<close>; \<open>KGHit q a c\<close> is
  \<^verbatim>\<open>{ match: true, question: q, answer: a, confidence: c, source: 'KNOWLEDGE_GRAPH' }\<close>.
\<close>

datatype kg_result =
    KGMiss
  | KGHit pval pval pval

definition searchKnowledgeGraph :: "string \<Rightarrow> string option \<Rightarrow> world \<Rightarrow> kg_result \<times> world" where
  "searchKnowledgeGraph query courseId w =
     (case getEmbedding query w of
        (None, w1) \<Rightarrow> (KGMiss, w1)
      | (Some embedding, w1) \<Rightarrow>
          (case runNeo4jQuery VectorQuery
                  [(''embedding'', PVec embedding), (''courseId'', optStr courseId)] w1 of
             (Inl e, w2) \<Rightarrow> (KGMiss, w2)
           | (Inr [], w2) \<Rightarrow> (KGMiss, w2)
           | (Inr (r # rs), w2) \<Rightarrow>
               (KGHit (param r ''question'') (param r ''answer'') (param r ''confidence''), w2)))"

definition truthy :: "string option \<Rightarrow> bool" where
  \<comment> \<open>a string, \<^verbatim>\<open>null\<close> or \<^verbatim>\<open>undefined\<close> in a condition\<close>
  "truthy v = (case v of None \<Rightarrow> False | Some s \<Rightarrow> s \<noteq> [])"

definition searchKey :: "string \<Rightarrow> string \<Rightarrow> string" where
  \<comment> \<open>the constant \<^verbatim>\<open>searchKey\<close> of \<^verbatim>\<open>searchExistingDoubts\<close>\<close>
  "searchKey query ctx =
     trim (toLowerCase query) @ (if ctx \<noteq> [] then ''|'' @ trim (toLowerCase ctx) else [])"

text \<open>\<open>DoubtHit a c s\<close> is the object \<^verbatim>\<open>{ answer: a, confidence: c, source: s }\<close>.\<close>

datatype doubt_hit = DoubtHit pval pval string

definition globalDoubtSearch :: "string \<Rightarrow> world \<Rightarrow> doubt_hit option \<times> world" where
  \<comment> \<open>step 2 of \<^verbatim>\<open>searchExistingDoubts\<close>\<close>
  "globalDoubtSearch key w =
     (case runNeo4jQuery GlobalDoubtLookup [(''searchKey'', PStr key)] w of
        (Inl e, w1) \<Rightarrow> (None, w1)
      | (Inr [], w1) \<Rightarrow> (None, w1)
      | (Inr (r # rs), w1) \<Rightarrow>
          (Some (DoubtHit (param r ''answer'') (param r ''confidence'') ''graph_db''), w1))"

definition searchExistingDoubts ::
  "string \<Rightarrow> string \<Rightarrow> string option \<Rightarrow> world \<Rightarrow> doubt_hit option \<times> world" where
  "searchExistingDoubts query ctx contentId w =
     (if truthy contentId then
        (case runNeo4jQuery ContentDoubtLookup
                [(''contentId'', optStr contentId), (''searchKey'', PStr (searchKey query ctx))] w of
           (Inl e, w1) \<Rightarrow> (None, w1)
         | (Inr (r # rs), w1) \<Rightarrow>
             (Some (DoubtHit (param r ''answer'') (param r ''confidence'')
                      ''content_knowledge_base''), w1)
         | (Inr [], w1) \<Rightarrow> globalDoubtSearch (searchKey query ctx) w1)
      else globalDoubtSearch (searchKey query ctx) w)"

text \<open>
  The properties that \<^verbatim>\<open>saveToKnowledgeGraph\<close> destructures from its argument; the
  confidence is a number.
\<close>

record kg_params =
  kw_query :: string
  kw_answer :: string
  kw_confidence :: rat
  kw_courseId :: "string option"
  kw_contentId :: "string option"
  kw_context :: "string option"
  kw_selectedText :: "string option"

text \<open>What \<^verbatim>\<open>saveToKnowledgeGraph\<close> returns: \<^verbatim>\<open>null\<close>, \<^verbatim>\<open>true\<close> or \<^verbatim>\<open>false\<close>.\<close>

datatype js_result = JsNull | JsBool bool

definition orEmpty :: "string option \<Rightarrow> string" where
  \<comment> \<open>\<^verbatim>\<open>v || ''\<close>\<close>
  "orEmpty v = (case v of None \<Rightarrow> [] | Some s \<Rightarrow> s)"

definition mergeBindings :: "kg_params \<Rightarrow> rat list \<Rightarrow> bindings" where
  "mergeBindings p embedding =
     [(''query'', PStr (kw_query p)),
      (''answer'', PStr (kw_answer p)),
      (''confidence'', PNum (kw_confidence p)),
      (''embedding'', PVec embedding),
      (''courseId'', optStr (kw_courseId p)),
      (''contentId'', PStr (orEmpty (kw_contentId p))),
      (''context'', PStr (orEmpty (kw_context p))),
      (''selectedText'', PStr (orEmpty (kw_selectedText p)))]"

definition saveToKnowledgeGraph :: "kg_params \<Rightarrow> world \<Rightarrow> js_result \<times> world" where
  "saveToKnowledgeGraph p w =
     (if kw_confidence p < 85 then (JsNull, w)
      else
        (case getEmbedding (kw_query p) w of
           (None, w1) \<Rightarrow> (JsNull, w1)
         | (Some embedding, w1) \<Rightarrow>
             (case runNeo4jQuery SubgraphMerge (mergeBindings p embedding) w1 of
                (Inl e, w2) \<Rightarrow> (JsBool False, w2)
              | (Inr rows, w2) \<Rightarrow> (JsBool True, w2))))"

definition savedGraph :: "kg_params \<Rightarrow> world \<Rightarrow> graph" where
  \<comment> \<open>the store after \<^verbatim>\<open>saveToKnowledgeGraph\<close>\<close>
  "savedGraph p w = graphStore (snd (saveToKnowledgeGraph p w))"

definition queryKey :: "string \<Rightarrow> string \<Rightarrow> string" where
  \<comment> \<open>the constant \<^verbatim>\<open>queryKey\<close> of \<^verbatim>\<open>saveDoubtToGraph\<close>\<close>
  "queryKey query ctx =
     trim (toLowerCase query) @ (if ctx \<noteq> [] then ''|'' @ trim (toLowerCase ctx) else [])"

definition upsertBindings ::
  "string \<Rightarrow> string \<Rightarrow> rat \<Rightarrow> string \<Rightarrow> string option \<Rightarrow> bindings" where
  "upsertBindings query answer confidence ctx contentId =
     [(''queryKey'', PStr (queryKey query ctx)),
      (''query'', PStr (trim query)),
      (''context'', PStr (trim ctx)),
      (''answer'', PStr answer),
      (''confidence'', PNum confidence),
      (''contentId'', optStr contentId)]"

definition saveDoubtToGraph ::
  "string \<Rightarrow> string \<Rightarrow> rat \<Rightarrow> string \<Rightarrow> string option \<Rightarrow> world \<Rightarrow> world" where
  "saveDoubtToGraph query answer confidence ctx contentId w =
     snd (runNeo4jQuery DoubtUpsert (upsertBindings query answer confidence ctx contentId) w)"


section \<open>The tutor gateway\<close>

text \<open>
  \<^verbatim>\<open>askGroq\<close> takes the query, the context (a string), whether a visual context was
  passed, the content URL and type, the language, the user name, the selected text and the
  key of the user. Its locals \<^verbatim>\<open>spatialInfo\<close>, \<^verbatim>\<open>activeModel\<close>, \<^verbatim>\<open>isCodingQuery\<close> and
  \<^verbatim>\<open>isExplicitCodeRequest\<close> are computed from strings and never read; they are left out.
  The environment holds the variables of the process, the parser \<^verbatim>\<open>JSON.parse\<close>
  (\<open>None\<close> is its syntax error), the image host (\<open>None\<close> is a failed download) and the
  chat completion endpoint, which rejects a request with or without a status, or answers
  with the content of the first choice (\<open>None\<close> when the body has none).
\<close>

datatype json =
    JNull
  | JBool bool
  | JNum rat
  | JStr string
  | JArr "json list"
  | JObj "(string \<times> json) list"

datatype jsval = Undefined | Val json

fun getProp :: "json \<Rightarrow> string \<Rightarrow> exn + jsval" where
  \<comment> \<open>\<^verbatim>\<open>v.name\<close> for a name that no prototype defines: reading a property of
      \<^verbatim>\<open>null\<close> throws, an object that lacks it and every primitive give \<^verbatim>\<open>undefined\<close>\<close>
  "getProp JNull k = Inl TypeError"
| "getProp (JObj kvs) k = Inr (case map_of kvs k of None \<Rightarrow> Undefined | Some v \<Rightarrow> Val v)"
| "getProp v k = Inr Undefined"

datatype language_rules = HinglishRules string | EnglishRules string

text \<open>
  A prompt is the template that produces it together with the values the template
  interpolates, in their order of appearance; the fixed text of the templates is not
  spelled out.
\<close>

datatype prompt =
    RegionPrompt jsval jsval jsval string
  | AdaptivePrompt language_rules string string

datatype message =
    SystemMessage prompt
  | UserMessage string
  | VisionMessage prompt string string string

record chat_request =
  model :: string
  messages :: "message list"
  temperature :: rat
  max_tokens :: nat
  bearer :: string
  timeout_ms :: nat

datatype chat_outcome =
    Rejected "nat option"
  | Answered "string option"

record groq_env =
  GROQ_API_KEY :: "string option"
  GROQ_MODEL_var :: "string option"
  GROQ_VISION_MODEL :: "string option"
  jsonParse :: "string \<Rightarrow> json option"
  imageFetch :: "string \<Rightarrow> string option"
  chatCompletion :: "chat_request \<Rightarrow> chat_outcome"

record groq_result =
  explanation :: string
  confidence :: jsnum
  confidenceBreakdown :: breakdown_obj
  source :: string

definition orElse :: "string option \<Rightarrow> string option \<Rightarrow> string option" where
  \<comment> \<open>\<^verbatim>\<open>a || b\<close>\<close>
  "orElse a b = (if truthy a then a else b)"

definition GROQ_MODEL :: "groq_env \<Rightarrow> string" where
  "GROQ_MODEL env = orEmpty (orElse (GROQ_MODEL_var env) (Some ''llama-3.3-70b-versatile''))"

definition visionModel :: "groq_env \<Rightarrow> string" where
  "visionModel env =
     orEmpty (orElse (GROQ_VISION_MODEL env) (Some ''llama-3.2-11b-vision-preview''))"

definition isStrictRegion :: "string \<Rightarrow> bool" where
  "isStrictRegion ctx = prefix ''STRICT_REGION_CONTEXT:'' ctx"

definition rawGrounding :: "string \<Rightarrow> string" where
  "rawGrounding ctx = removeFirst ''STRICT_REGION_CONTEXT: '' ctx"

definition emptyGrounding :: json where
  "emptyGrounding =
     JObj [(''transcriptSegment'', JStr []), (''selectedTimestamp'', JStr []),
           (''courseContext'', JStr []), (''facultyResources'', JStr [])]"

definition gc :: "groq_env \<Rightarrow> string \<Rightarrow> json" where
  \<comment> \<open>\<^verbatim>\<open>try { gc = JSON.parse(rawGrounding); } catch (e) { }\<close>\<close>
  "gc env ctx = (case jsonParse env (rawGrounding ctx) of None \<Rightarrow> emptyGrounding | Some v \<Rightarrow> v)"

definition languageInstruction :: "string \<Rightarrow> string \<Rightarrow> language_rules" where
  "languageInstruction language userName =
     (if toLowerCase language = ''hindi'' then HinglishRules userName
      else EnglishRules userName)"

definition currentContext :: "string \<Rightarrow> string \<Rightarrow> string" where
  \<comment> \<open>\<^verbatim>\<open>selectedText || context || 'General curriculum'\<close>\<close>
  "currentContext selectedText ctx =
     (if selectedText \<noteq> [] then selectedText
      else if ctx \<noteq> [] then ctx else ''General curriculum'')"

definition systemPrompt ::
  "groq_env \<Rightarrow> string \<Rightarrow> string \<Rightarrow> string \<Rightarrow> string \<Rightarrow> string \<Rightarrow> exn + prompt" where
  "systemPrompt env query ctx language userName selectedText =
     (if isStrictRegion ctx then
        (case getProp (gc env ctx) ''selectedTimestamp'' of
           Inl e \<Rightarrow> Inl e
         | Inr selectedTimestamp \<Rightarrow>
             (case getProp (gc env ctx) ''transcriptSegment'' of
                Inl e \<Rightarrow> Inl e
              | Inr transcriptSegment \<Rightarrow>
                  (case getProp (gc env ctx) ''courseContext'' of
                     Inl e \<Rightarrow> Inl e
                   | Inr courseContext \<Rightarrow>
                       Inr (RegionPrompt selectedTimestamp transcriptSegment
                              courseContext query))))
      else Inr (AdaptivePrompt (languageInstruction language userName) userName
                  (currentContext selectedText ctx)))"

definition isVisionMode_of :: "bool \<Rightarrow> string option \<Rightarrow> string option \<Rightarrow> bool" where
  \<comment> \<open>the variable \<^verbatim>\<open>isVisionMode\<close>\<close>
  "isVisionMode_of visualContext contentUrl cType =
     (visualContext \<and> truthy contentUrl \<and> cType = Some ''image'')"

definition mimeType :: "string \<Rightarrow> string" where
  "mimeType contentUrl = (if suffix ''.png'' contentUrl then ''image/png'' else ''image/jpeg'')"

definition buildMessages ::
  "groq_env \<Rightarrow> bool \<Rightarrow> string option \<Rightarrow> prompt \<Rightarrow> string \<Rightarrow> message list" where
  "buildMessages env vision contentUrl sp query =
     (if vision \<and> truthy contentUrl then
        (case imageFetch env (orEmpty contentUrl) of
           Some bytes \<Rightarrow> [VisionMessage sp query (mimeType (orEmpty contentUrl)) bytes]
         | None \<Rightarrow> [SystemMessage sp, UserMessage query])
      else [SystemMessage sp, UserMessage query])"

definition postError :: "nat option \<Rightarrow> exn" where
  \<comment> \<open>the handler chained to the request with \<^verbatim>\<open>.catch\<close>; the argument is
      \<^verbatim>\<open>err.response?.status\<close>\<close>
  "postError status =
     (if status = Some 413 \<or> status = Some 429 then Error ''API_LIMIT_REACHED''
      else if status = Some 401 then Error ''INVALID_API_KEY''
      else HttpError status)"

definition askGroqTry ::
  "groq_env \<Rightarrow> string \<Rightarrow> string \<Rightarrow> bool \<Rightarrow> string option \<Rightarrow> string option \<Rightarrow> string
     \<Rightarrow> string \<Rightarrow> string \<Rightarrow> string option \<Rightarrow> exn + groq_result" where
  \<comment> \<open>the body of the \<^verbatim>\<open>try\<close> block of \<^verbatim>\<open>askGroq\<close>\<close>
  "askGroqTry env query ctx visualContext contentUrl cType language userName selectedText userKey =
     (let activeApiKey = orElse userKey (GROQ_API_KEY env);
          vision = isVisionMode_of visualContext contentUrl cType
      in if \<not> truthy activeApiKey then Inl (Error ''NO_API_KEY'')
         else
           (case systemPrompt env query ctx language userName selectedText of
              Inl e \<Rightarrow> Inl e
            | Inr sp \<Rightarrow>
                (case chatCompletion env
                        \<lparr> model = (if vision then visionModel env else GROQ_MODEL env),
                          messages = buildMessages env vision contentUrl sp query,
                          temperature = 6 / 10,
                          max_tokens = 2048,
                          bearer = orEmpty activeApiKey,
                          timeout_ms = 30000 \<rparr> of
                   Rejected status \<Rightarrow> Inl (postError status)
                 | Answered None \<Rightarrow> Inl TypeError
                 | Answered (Some rawContent) \<Rightarrow>
                     (let confidenceResult = calculateConfidence
                            \<lparr> aiConfidence = Some (Fin 85),
                              hasContext = Some (ctx \<noteq> []),
                              hasSelectedText = Some (selectedText \<noteq> []),
                              hasVisualContext = Some visualContext,
                              isVisionMode = Some vision,
                              responseLength = Some (Fin (of_nat (length rawContent))),
                              hasFormatting =
                                Some (Fin (of_nat (score (checkFormattingQuality (Some rawContent))))),
                              contentType = cType,
                              isVerifiedSource = None \<rparr>
                      in Inr \<lparr> explanation = rawContent,
                               confidence = finalScore confidenceResult,
                               confidenceBreakdown = breakdown confidenceResult,
                               source = (if vision then ''groq_vision'' else ''groq_llama'') \<rparr>))))"

definition askGroq ::
  "groq_env \<Rightarrow> string \<Rightarrow> string \<Rightarrow> bool \<Rightarrow> string option \<Rightarrow> string option \<Rightarrow> string
     \<Rightarrow> string \<Rightarrow> string \<Rightarrow> string option \<Rightarrow> exn + groq_result" where
  "askGroq env query ctx visualContext contentUrl cType language userName selectedText userKey =
     (case askGroqTry env query ctx visualContext contentUrl cType language userName
             selectedText userKey of
        Inl e \<Rightarrow> Inl (Error ''AI Tutor is currently unavailable.'')
      | Inr r \<Rightarrow> Inr r)"


section \<open>Example inputs\<close>

definition tcpDoubt :: "rat \<Rightarrow> doubt_node" where
  "tcpDoubt c =
     \<lparr> d_queryKey = ''what is tcp?|networks'', d_query = PStr ''What is TCP?'',
       d_context = PStr ''Networks'', d_answer = PStr ''A transport protocol.'',
       d_confidence = PNum c, d_relatesTo = [''c1''] \<rparr>"

definition tcpWorld :: "rat \<Rightarrow> world" where
  "tcpWorld c =
     \<lparr> graphStore =
         \<lparr> doubts = [tcpDoubt c], contentIds = [''c1''], courseIds = [''course1''],
           questions = [], answers = [], concepts = [], edges = [],
           similarity = (\<lambda>e v. if e = v then 1 else 0) \<rparr>,
       embeddingService = (\<lambda>t. Reply True (Some [1, 0])),
       storeRaises = (\<lambda>st. False),
       calls = [] \<rparr>"

definition lowParams :: kg_params where
  "lowParams =
     \<lparr> kw_query = ''Explain routing tables'', kw_answer = ''They map prefixes to hops.'',
       kw_confidence = 84, kw_courseId = Some ''course1'', kw_contentId = None,
       kw_context = None, kw_selectedText = None \<rparr>"

definition routingParams :: kg_params where
  "routingParams = lowParams\<lparr> kw_confidence := 85, kw_contentId := Some ''c1'' \<rparr>"


fun miniParse :: "string \<Rightarrow> json option" where
  \<comment> \<open>a fragment of \<^verbatim>\<open>JSON.parse\<close>: leading spaces are skipped, the texts \<^verbatim>\<open>{}\<close> and
      \<^verbatim>\<open>null\<close> are parsed, any other text is a syntax error\<close>
  "miniParse [] = None"
| "miniParse (c # cs) =
     (if c = CHR '' '' then miniParse cs
      else if c # cs = ''{}'' then Some (JObj [])
      else if c # cs = ''null'' then Some JNull
      else None)"

definition tutorEnv :: "string option \<Rightarrow> chat_outcome \<Rightarrow> groq_env" where
  \<comment> \<open>a process with the given default key whose chat endpoint gives the given outcome\<close>
  "tutorEnv key outcome =
     \<lparr> GROQ_API_KEY = key, GROQ_MODEL_var = None, GROQ_VISION_MODEL = None,
       jsonParse = miniParse, imageFetch = (\<lambda>url. None),
       chatCompletion = (\<lambda>req. outcome) \<rparr>"

definition ask :: "groq_env \<Rightarrow> exn + groq_result" where
  \<comment> \<open>\<^verbatim>\<open>askGroq('What is TCP?')\<close>, every other argument at its default\<close>
  "ask env = askGroq env ''What is TCP?'' [] False None None ''english'' ''Student'' [] None"

definition askTry :: "groq_env \<Rightarrow> exn + groq_result" where
  "askTry env = askGroqTry env ''What is TCP?'' [] False None None ''english'' ''Student'' [] None"

definition headedText :: string where
  \<comment> \<open>a main heading, two secondary headings, a bullet with bold text\<close>
  "headedText =
     ''### Title'' @ [CHR 10] @ ''#### One'' @ [CHR 10] @ ''- item **bold**'' @ [CHR 10]
       @ ''#### Two''"


section \<open>Properties of rounding\<close>

lemma ilog2_le:
  assumes "x > 0"
  shows "power_int 2 (ilog2 x) \<le> x"
proof -
  obtain p q where pq: "quotient_of x = (p, q)" by (cases "quotient_of x")
  have q: "q > 0" using pq by (rule quotient_of_denom_pos)
  have x: "x = of_int p / of_int q" using pq by (rule quotient_of_div)
  have p: "p > 0" using assms q unfolding x by (simp add: zero_less_divide_iff)
  have bp: "2 ^ nat (bitlen p - 1) \<le> p" and bq: "q < 2 ^ nat (bitlen q)"
    using bitlen_bounds [OF p] bitlen_bounds [OF q] by simp_all
  have b1: "bitlen p \<ge> 1" "bitlen q \<ge> 1"
    using p q bitlen_eq_zero_iff [of p] bitlen_eq_zero_iff [of q] bitlen_nonneg [of p]
      bitlen_nonneg [of q] by linarith+
  have lo: "(2::rat) ^ nat (bitlen p - 1) \<le> of_int p"
    using bp by (metis of_int_le_iff of_int_numeral of_int_power)
  have hi: "of_int q \<le> (2::rat) ^ nat (bitlen q)"
    using bq by (metis less_imp_le of_int_le_iff of_int_numeral of_int_power)
  have "power_int (2::rat) (bitlen p - bitlen q - 1)
          = power_int 2 (bitlen p - 1) / power_int 2 (bitlen q)"
    using power_int_diff [of "2::rat" "bitlen p - 1" "bitlen q"] by (simp add: algebra_simps)
  also have "\<dots> = 2 ^ nat (bitlen p - 1) / 2 ^ nat (bitlen q)"
    using b1 by (simp add: power_int_def)
  also have "\<dots> \<le> of_int p / of_int q"
    using lo hi q p by (intro frac_le) simp_all
  finally have "power_int (2::rat) (bitlen p - bitlen q - 1) \<le> x" unfolding x .
  then show ?thesis
    unfolding ilog2_def Let_def pq by simp
qed

lemma ilog2_less:
  assumes "x > 0"
  shows "x < power_int 2 (ilog2 x + 1)"
proof -
  obtain p q where pq: "quotient_of x = (p, q)" by (cases "quotient_of x")
  have q: "q > 0" using pq by (rule quotient_of_denom_pos)
  have x: "x = of_int p / of_int q" using pq by (rule quotient_of_div)
  have p: "p > 0" using assms q unfolding x by (simp add: zero_less_divide_iff)
  have bp: "p < 2 ^ nat (bitlen p)" and bq: "2 ^ nat (bitlen q - 1) \<le> q"
    using bitlen_bounds [OF p] bitlen_bounds [OF q] by simp_all
  have b1: "bitlen p \<ge> 1" "bitlen q \<ge> 1"
    using p q bitlen_eq_zero_iff [of p] bitlen_eq_zero_iff [of q] bitlen_nonneg [of p]
      bitlen_nonneg [of q] by linarith+
  have hi: "of_int p < (2::rat) ^ nat (bitlen p)"
    using bp by (metis of_int_less_iff of_int_numeral of_int_power)
  have lo: "(2::rat) ^ nat (bitlen q - 1) \<le> of_int q"
    using bq by (metis of_int_le_iff of_int_numeral of_int_power)
  have "x < 2 ^ nat (bitlen p) / 2 ^ nat (bitlen q - 1)"
    unfolding x using hi lo q p by (intro frac_less) simp_all
  also have "\<dots> = power_int 2 (bitlen p) / power_int 2 (bitlen q - 1)"
    using b1 by (simp add: power_int_def)
  also have "\<dots> = power_int (2::rat) (bitlen p - bitlen q + 1)"
    using power_int_diff [of "2::rat" "bitlen p" "bitlen q - 1"] by (simp add: algebra_simps)
  finally have up: "x < power_int 2 (bitlen p - bitlen q + 1)" .
  show ?thesis
  proof (cases "power_int 2 (bitlen p - bitlen q) \<le> x")
    case True
    then show ?thesis using up unfolding ilog2_def Let_def pq by simp
  next
    case False
    then show ?thesis unfolding ilog2_def Let_def pq by simp
  qed
qed

lemma roundHalfEven_bounds:
  "of_int (roundHalfEven y) \<le> y + 1 / 2 \<and> y - 1 / 2 \<le> of_int (roundHalfEven y)"
proof -
  define k where "k = \<lfloor>y\<rfloor>"
  have f: "of_int k \<le> y" "y < of_int k + 1" unfolding k_def by linarith+
  have "(roundHalfEven y = k \<and> y - of_int k \<le> 1 / 2)
        \<or> (roundHalfEven y = k + 1 \<and> y - of_int k \<ge> 1 / 2)"
    unfolding roundHalfEven_def Let_def k_def by auto
  then show ?thesis
  proof (elim disjE conjE)
    assume h: "roundHalfEven y = k" and d: "y - of_int k \<le> 1 / 2"
    show ?thesis unfolding h using f d by linarith
  next
    assume h: "roundHalfEven y = k + 1" and d: "y - of_int k \<ge> 1 / 2"
    have "(of_int (k + 1) :: rat) = of_int k + 1" by simp
    then show ?thesis unfolding h using f d by linarith
  qed
qed

lemma rnd_not_NaN: "rnd x \<noteq> NaN"
  by (simp add: rnd_def signed_def)

lemma rnd_small:
  assumes "0 \<le> x" "x \<le> 2 ^ 20"
  shows "\<exists>r. rnd x = Fin r \<and> 0 \<le> r \<and> r \<le> 2 * x + 1"
proof (cases "x = 0")
  case True
  then show ?thesis by (simp add: rnd_def)
next
  case False
  with assms have pos: "x > 0" by simp
  define e where "e = expOf x"
  define u where "u = power_int (2::rat) (e - 52)"
  define m where "m = sigOf x"
  have lo: "power_int 2 (ilog2 x) \<le> x" using pos by (rule ilog2_le)
  have "power_int (2::rat) (ilog2 x) \<le> power_int 2 20" using lo assms(2) by simp
  then have i20: "ilog2 x \<le> 20" by (rule power_int_le_imp_le_exp [rotated]) simp_all
  then have e20: "e \<le> 20" by (simp add: e_def expOf_def)
  have upos: "u > 0" by (simp add: u_def)
  have ule: "u \<le> x + 1"
  proof (cases "ilog2 x \<ge> - 1022")
    case True
    then have "e = ilog2 x" by (simp add: e_def expOf_def)
    then have "u \<le> power_int 2 (ilog2 x)"
      unfolding u_def by (simp add: power_int_increasing)
    with lo show ?thesis by simp
  next
    case False
    then have "e = - 1022" by (simp add: e_def expOf_def)
    then have "u \<le> power_int 2 0"
      unfolding u_def by (intro power_int_increasing) simp_all
    with pos show ?thesis by simp
  qed
  have mb: "of_int m \<le> x / u + 1 / 2" "x / u - 1 / 2 \<le> of_int m"
    using roundHalfEven_bounds [of "x / u"] by (simp_all add: m_def sigOf_def u_def e_def)
  have "x / u \<ge> 0" using pos upos by simp
  with mb(2) have "(of_int m :: rat) \<ge> - 1 / 2" by linarith
  then have m0: "m \<ge> 0" by linarith
  have r0: "0 \<le> of_int m * u" using m0 upos by simp
  have "of_int m * u \<le> (x / u + 1 / 2) * u"
    using mb(1) upos by (simp add: mult_right_mono)
  also have "\<dots> = x + u / 2" using upos by (simp add: field_simps)
  also have "\<dots> \<le> 2 * x + 1" using ule pos by linarith
  finally have rle: "of_int m * u \<le> 2 * x + 1" .
  have "rnd x = Fin (of_int m * u)"
    using pos e20 by (simp add: rnd_def signed_def m_def u_def e_def)
  with r0 rle show ?thesis by simp
qed


section \<open>Properties of the confidence scorer\<close>

lemma lit35: "rnd (35 / 100) = Fin (3152519739159347 / 9007199254740992)"
  by code_simp

lemma lit50: "rnd (50 / 100) = Fin (1 / 2)"
  by code_simp

lemma aiWeight_cases:
  "aiWeight p = Fin (1 / 2) \<or> aiWeight p = Fin (3152519739159347 / 9007199254740992)"
  using lit35 lit50 by (simp add: aiWeight_def)

lemma small_sums:
  "rnd 12 = Fin 12" "rnd 8 = Fin 8" "rnd 5 = Fin 5" "rnd 20 = Fin 20" "rnd 17 = Fin 17"
  "rnd 13 = Fin 13" "rnd 25 = Fin 25"
  by code_simp+

lemma contextScore_cases:
  "contextScore p \<in> {Fin 0, Fin 5, Fin 8, Fin 12, Fin 13, Fin 17, Fin 20, Fin 25}"
  by (simp add: contextScore_def Let_def small_sums jmin_def)

lemma responseScore_cases: "responseScore p \<in> {Fin 5, Fin 10, Fin 15, Fin 20}"
  by (simp add: responseScore_def Let_def)

lemma sourceBonus_cases: "sourceBonus p \<in> {Fin 0, Fin 10}"
  by (simp add: sourceBonus_def)

lemma clamp_Fin:
  assumes "x \<noteq> NaN"
  shows "\<exists>c. jmin (Fin 100) (jmax (Fin 0) x) = Fin c \<and> 0 \<le> c \<and> c \<le> 100"
  using assms by (cases x) (auto simp add: jmin_def jmax_def)

lemma clamp_NaN: "jmin (Fin 100) (jmax (Fin 0) NaN) = NaN"
  by (simp add: jmin_def jmax_def)

lemma clamp_above: "jle (Fin 100) x \<Longrightarrow> jmin (Fin 100) (jmax (Fin 0) x) = Fin 100"
  by (cases x) (auto simp add: jmin_def jmax_def)

lemma clamp_below: "jle x (Fin 0) \<Longrightarrow> jmin (Fin 100) (jmax (Fin 0) x) = Fin 0"
  by (cases x) (auto simp add: jmin_def jmax_def)

lemma clamp_rounded:
  assumes "y = PInf \<or> y = NInf \<or> (\<exists>k. y = Fin (of_int k))"
  shows "\<exists>n. jmin (Fin 100) (jmax (Fin 0) y) = Fin (of_int n) \<and> 0 \<le> n \<and> n \<le> 100"
proof -
  from assms consider "y = PInf" | "y = NInf" | k where "y = Fin (of_int k)" by blast
  then show ?thesis
  proof cases
    case 1
    have "jmin (Fin 100) (jmax (Fin 0) y) = Fin (of_int 100)" by (simp add: 1 jmin_def jmax_def)
    then show ?thesis by (intro exI [of _ 100]) simp
  next
    case 2
    have "jmin (Fin 100) (jmax (Fin 0) y) = Fin (of_int 0)" by (simp add: 2 jmin_def jmax_def)
    then show ?thesis by (intro exI [of _ 0]) simp
  next
    case 3
    have "jmin (Fin 100) (jmax (Fin 0) y) = Fin (of_int (min 100 (max 0 k)))"
      by (simp add: 3 jmin_def jmax_def min_def max_def)
    then show ?thesis by (intro exI [of _ "min 100 (max 0 k)"]) simp
  qed
qed

lemma jsRound_cases:
  assumes "x \<noteq> NaN"
  shows "jsRound x = PInf \<or> jsRound x = NInf \<or> (\<exists>k. jsRound x = Fin (of_int k))"
  using assms by (cases x) (auto simp add: jsRound_def)



lemma jadd_Fin_left: "y \<noteq> NaN \<Longrightarrow> jadd (Fin a) y \<noteq> NaN"
  by (cases y) (simp_all add: rnd_not_NaN)

lemma jadd_Fin_right: "x \<noteq> NaN \<Longrightarrow> jadd x (Fin b) \<noteq> NaN"
  by (cases x) (simp_all add: rnd_not_NaN)

lemma jadd_NaN: "jadd NaN y = NaN" "jadd x NaN = NaN"
  by (cases x; simp)+

lemma jadd_small:
  assumes "0 \<le> a" "0 \<le> b" "a + b \<le> 2 ^ 20"
  shows "\<exists>r. jadd (Fin a) (Fin b) = Fin r \<and> 0 \<le> r \<and> r \<le> 2 * (a + b) + 1"
  using rnd_small [of "a + b"] assms by simp

lemma aiScore_Fin:
  assumes "orDefault (Fin 85) (aiConfidence p) \<noteq> NaN"
  shows "\<exists>a. aiScore p = Fin a \<and> 0 \<le> a \<and> a \<le> 201"
proof -
  obtain c where c: "jmin (Fin 100) (jmax (Fin 0) (orDefault (Fin 85) (aiConfidence p))) = Fin c"
    "0 \<le> c" "c \<le> 100" using clamp_Fin [OF assms] by blast
  have "\<exists>w. aiWeight p = Fin w \<and> 0 < w \<and> w \<le> 1"
  proof (rule disjE [OF aiWeight_cases [of p]])
    assume "aiWeight p = Fin (1 / 2)"
    then show ?thesis by (intro exI [of _ "1 / 2"]) simp
  next
    assume "aiWeight p = Fin (3152519739159347 / 9007199254740992)"
    then show ?thesis by (intro exI [of _ "3152519739159347 / 9007199254740992"]) simp
  qed
  then obtain w where w: "aiWeight p = Fin w" "0 < w" "w \<le> 1" by blast
  have cw: "0 \<le> c * w" "c * w \<le> 100"
    using c(2,3) w(2,3) mult_mono [of c 100 w 1] by simp_all
  then have "c * w \<le> 2 ^ 20" by simp
  with rnd_small [of "c * w"] cw(1) obtain r where "rnd (c * w) = Fin r" "0 \<le> r" "r \<le> 2 * (c * w) + 1"
    by blast
  with cw(2) show ?thesis by (simp add: aiScore_def c(1) w(1))
qed

lemma aiScore_NaN: "orDefault (Fin 85) (aiConfidence p) = NaN \<Longrightarrow> aiScore p = NaN"
  by (simp add: aiScore_def clamp_NaN)

lemma jdiv_100_NaN_iff: "jdiv x (Fin 100) = NaN \<longleftrightarrow> x = NaN"
  by (cases x) (simp_all add: rnd_not_NaN signed_def)

lemma jmul_20_NaN_iff: "jmul x (Fin 20) = NaN \<longleftrightarrow> x = NaN"
  by (cases x) (simp_all add: rnd_not_NaN signed_def)

lemma formattingScore_NaN_iff:
  "formattingScore p = NaN \<longleftrightarrow> orDefault (Fin 0) (hasFormatting p) = NaN"
  by (simp add: formattingScore_def jmul_20_NaN_iff jdiv_100_NaN_iff)


lemma roundedSum_cases:
  assumes "orDefault (Fin 85) (aiConfidence p) \<noteq> NaN"
    and "orDefault (Fin 0) (hasFormatting p) \<noteq> NaN"
  shows "roundedSum p = PInf \<or> roundedSum p = NInf \<or> (\<exists>k. roundedSum p = Fin (of_int k))"
proof -
  obtain a where a: "aiScore p = Fin a" "0 \<le> a" "a \<le> 201"
    using aiScore_Fin [OF assms(1)] by blast
  obtain c where c: "contextScore p = Fin c" "0 \<le> c" "c \<le> 25"
    using contextScore_cases [of p] by auto
  obtain r where r: "responseScore p = Fin r" "0 \<le> r" "r \<le> 20"
    using responseScore_cases [of p] by auto
  obtain b where b: "sourceBonus p = Fin b"
    using sourceBonus_cases [of p] by auto
  have "a + c \<le> 2 ^ 20" using a c by simp
  with jadd_small [of a c] a c obtain s1 where
    s1: "jadd (Fin a) (Fin c) = Fin s1" "0 \<le> s1" "s1 \<le> 2 * (a + c) + 1" by blast
  have "s1 + r \<le> 2 ^ 20" using s1 a c r by simp
  with jadd_small [of s1 r] s1 r obtain s2 where
    s2: "jadd (Fin s1) (Fin r) = Fin s2" by blast
  have f: "formattingScore p \<noteq> NaN" using assms(2) by (simp add: formattingScore_NaN_iff)
  have "jadd (Fin s2) (formattingScore p) \<noteq> NaN" using f by (rule jadd_Fin_left)
  then have "jadd (jadd (Fin s2) (formattingScore p)) (Fin b) \<noteq> NaN" by (rule jadd_Fin_right)
  then show ?thesis
    unfolding roundedSum_def a(1) c(1) r(1) b s1(1) s2 by (rule jsRound_cases)
qed

lemma roundedSum_NaN:
  assumes "orDefault (Fin 85) (aiConfidence p) = NaN \<or> orDefault (Fin 0) (hasFormatting p) = NaN"
  shows "roundedSum p = NaN"
proof -
  have "aiScore p = NaN \<or> formattingScore p = NaN"
    using assms aiScore_NaN [of p] formattingScore_NaN_iff [of p] by blast
  then show ?thesis
    unfolding roundedSum_def by (auto simp add: jadd_NaN jsRound_def)
qed

text \<open>
  Claim C4, amended. When the model confidence and the formatting score are numbers other
  than \<^verbatim>\<open>NaN\<close>, whatever their range (150, -10, an infinity), the final score is an integer
  between 0 and 100; when one of them is \<^verbatim>\<open>NaN\<close> (a formatting object without a numeric
  score reads as \<^verbatim>\<open>NaN\<close>), the final score is \<^verbatim>\<open>NaN\<close>. The model confidence is clamped
  to the range before the weight multiplies it: a value of 100 or more counts as 100, a
  value of 0 or less as 0, a value in between as itself.
\<close>

theorem calculateConfidence_in_range:
  "(orDefault (Fin 85) (aiConfidence p) \<noteq> NaN \<and> orDefault (Fin 0) (hasFormatting p) \<noteq> NaN
      \<longrightarrow> (\<exists>n. finalScore (calculateConfidence p) = Fin (of_int n) \<and> 0 \<le> n \<and> n \<le> 100))
   \<and> (orDefault (Fin 85) (aiConfidence p) = NaN \<or> orDefault (Fin 0) (hasFormatting p) = NaN
      \<longrightarrow> finalScore (calculateConfidence p) = NaN)
   \<and> (jle (Fin 100) x \<longrightarrow>
        aiScore (p\<lparr>aiConfidence := Some x\<rparr>) = jmul (Fin 100) (aiWeight p))
   \<and> (jle x (Fin 0) \<longrightarrow>
        aiScore (p\<lparr>aiConfidence := Some x\<rparr>) = jmul (Fin 0) (aiWeight p))
   \<and> (0 \<le> c \<and> c \<le> 100 \<longrightarrow>
        aiScore (p\<lparr>aiConfidence := Some (Fin c)\<rparr>) = jmul (Fin c) (aiWeight p))"
proof -
  have ok: "\<exists>n. finalScore (calculateConfidence p) = Fin (of_int n) \<and> 0 \<le> n \<and> n \<le> 100"
    if "orDefault (Fin 85) (aiConfidence p) \<noteq> NaN" "orDefault (Fin 0) (hasFormatting p) \<noteq> NaN"
    using clamp_rounded [OF roundedSum_cases [OF that]] by (simp add: calculateConfidence_def)
  have nan: "finalScore (calculateConfidence p) = NaN"
    if "orDefault (Fin 85) (aiConfidence p) = NaN \<or> orDefault (Fin 0) (hasFormatting p) = NaN"
    using roundedSum_NaN [OF that] by (simp add: calculateConfidence_def clamp_NaN)
  have w: "aiWeight (p\<lparr>aiConfidence := v\<rparr>) = aiWeight p" for v
    by (simp add: aiWeight_def)
  have hi: "aiScore (p\<lparr>aiConfidence := Some x\<rparr>) = jmul (Fin 100) (aiWeight p)"
    if "jle (Fin 100) x"
    using clamp_above [OF that] by (simp add: aiScore_def w orDefault_def)
  have lo: "aiScore (p\<lparr>aiConfidence := Some x\<rparr>) = jmul (Fin 0) (aiWeight p)"
    if "jle x (Fin 0)"
    using clamp_below [OF that] by (simp add: aiScore_def w orDefault_def)
  have mid: "aiScore (p\<lparr>aiConfidence := Some (Fin c)\<rparr>) = jmul (Fin c) (aiWeight p)"
    if "0 \<le> c \<and> c \<le> 100"
    using that by (auto simp add: aiScore_def w orDefault_def jmin_def jmax_def)
  from ok nan hi lo mid show ?thesis by blast
qed


lemma scenario_parts:
  "aiScore scenarioParams = Fin (8373880557142015 / 281474976710656)"
  "contextScore scenarioParams = Fin 20"
  "responseScore scenarioParams = Fin 20"
  "formattingScore scenarioParams = Fin 20"
  "sourceBonus scenarioParams = Fin 0"
  by code_simp+

lemma scenario_sum:
  "jadd (jadd (jadd (jadd (Fin (8373880557142015 / 281474976710656)) (Fin 20)) (Fin 20))
           (Fin 20)) (Fin 0) = Fin (8975 / 100)"
  by code_simp

lemma scenario_rounded: "roundedSum scenarioParams = Fin 90"
proof -
  have "jsRound (Fin (8975 / 100)) = Fin 90" by code_simp
  then show ?thesis
    unfolding roundedSum_def scenario_parts scenario_sum .
qed

lemma scenario_contribution: "jsRound (Fin (8373880557142015 / 281474976710656)) = Fin 30"
  by code_simp




theorem calculateConfidence_in_range_witness:
  "(\<exists>n. finalScore (calculateConfidence outOfRangeParams) = Fin (of_int n) \<and> 0 \<le> n \<and> n \<le> 100)
   \<and> aiScore (scenarioParams\<lparr>aiConfidence := Some (Fin 150)\<rparr>)
       = jmul (Fin 100) (aiWeight scenarioParams)
   \<and> aiScore (scenarioParams\<lparr>aiConfidence := Some (Fin (- 10))\<rparr>)
       = jmul (Fin 0) (aiWeight scenarioParams)
   \<and> aiScore (scenarioParams\<lparr>aiConfidence := Some PInf\<rparr>)
       = jmul (Fin 100) (aiWeight scenarioParams)
   \<and> aiScore (scenarioParams\<lparr>aiConfidence := Some (Fin 85)\<rparr>)
       = jmul (Fin 85) (aiWeight scenarioParams)"
proof -
  have h: "orDefault (Fin 85) (aiConfidence outOfRangeParams) \<noteq> NaN
           \<and> orDefault (Fin 0) (hasFormatting outOfRangeParams) \<noteq> NaN"
    by (simp add: outOfRangeParams_def scenarioParams_def orDefault_def)
  show ?thesis
    using h calculateConfidence_in_range [of outOfRangeParams "Fin 150" 85]
      calculateConfidence_in_range [of scenarioParams "Fin 150" 85]
      calculateConfidence_in_range [of scenarioParams "Fin (- 10)" 85]
      calculateConfidence_in_range [of scenarioParams PInf 85]
    by simp
qed

text \<open>
  The claim as written fails for a model confidence \<^verbatim>\<open>NaN\<close> and for a formatting object
  without a numeric score: the final score is \<^verbatim>\<open>NaN\<close>.
\<close>

theorem calculateConfidence_NaN_counterexample:
  "finalScore (calculateConfidence nanParams) = NaN
   \<and> finalScore (calculateConfidence noScoreParams) = NaN"
proof -
  have a: "roundedSum nanParams = NaN"
    by (rule roundedSum_NaN) (simp add: nanParams_def orDefault_def)
  have b: "roundedSum noScoreParams = NaN"
    by (rule roundedSum_NaN) (simp add: noScoreParams_def orDefault_def)
  show ?thesis by (simp add: calculateConfidence_def a b clamp_NaN)
qed

text \<open>
  Claim C5, amended. In the scenario of the specification the component of the model
  confidence is the double product of 85 and 0.35, which is 29.75 less \<open>2\<close> to the power -48
  (printed 29.749999999999996) and is reported rounded, as 30; the context, the response
  and the formatting contribute 20 each and the bonus 0; the double sum is 89.75, the final
  score is 90 and the reliability is High.
\<close>

theorem calculateConfidence_scenario:
  "aiScore scenarioParams = Fin (8373880557142015 / 281474976710656)
   \<and> contribution (b_aiConfidence (breakdown (calculateConfidence scenarioParams))) = Fin 30
   \<and> contextScore scenarioParams = Fin 20
   \<and> responseScore scenarioParams = Fin 20
   \<and> formattingScore scenarioParams = Fin 20
   \<and> sourceBonus scenarioParams = Fin 0
   \<and> jadd (jadd (jadd (jadd (aiScore scenarioParams) (contextScore scenarioParams))
        (responseScore scenarioParams)) (formattingScore scenarioParams))
        (sourceBonus scenarioParams) = Fin (8975 / 100)
   \<and> finalScore (calculateConfidence scenarioParams) = Fin 90
   \<and> reliability (summary (breakdown (calculateConfidence scenarioParams))) = ''High''"
proof -
  have f: "finalScore (calculateConfidence scenarioParams) = Fin 90"
    by (simp add: calculateConfidence_def scenario_rounded jmin_def jmax_def)
  have r: "reliability (summary (breakdown (calculateConfidence scenarioParams))) = ''High''"
    by (simp add: calculateConfidence_def scenario_rounded reliabilityLabel_def jge_def)
  have c: "contribution (b_aiConfidence (breakdown (calculateConfidence scenarioParams))) = Fin 30"
    by (simp add: calculateConfidence_def scenario_parts scenario_contribution)
  show ?thesis
    unfolding scenario_parts scenario_sum using f r c by simp
qed

text \<open>
  The claim as written fails in its first component: the code does not compute 29.75, and
  the breakdown does not report it.
\<close>

theorem calculateConfidence_scenario_counterexample:
  "aiScore scenarioParams = Fin (2975 / 100 - 1 / 2 ^ 48)
   \<and> aiScore scenarioParams \<noteq> Fin (2975 / 100)
   \<and> contribution (b_aiConfidence (breakdown (calculateConfidence scenarioParams)))
       \<noteq> Fin (2975 / 100)"
  by (simp add: calculateConfidence_def scenario_parts scenario_contribution)




lemma weight_times_100:
  "jmul (aiWeight p) (Fin 100) = Fin 50 \<or> jmul (aiWeight p) (Fin 100) = Fin 35"
proof -
  have "jmul (Fin (1 / 2)) (Fin 100) = Fin 50" by code_simp
  moreover have "jmul (Fin (3152519739159347 / 9007199254740992)) (Fin 100) = Fin 35"
    by code_simp
  ultimately show ?thesis using aiWeight_cases [of p] by auto
qed


section \<open>Properties of the formatting quality analyzer\<close>

lemma checkFormattingQuality_headedText:
  "score (checkFormattingQuality (Some headedText)) = 65"
  unfolding headedText_def by code_simp

lemma checkFormattingQuality_plain:
  "score (checkFormattingQuality (Some ''x'')) = 0
   \<and> map_of (details (checkFormattingQuality (Some ''x''))) ''hasMainTitle'' = Some (Flag False)"
  by code_simp

text \<open>
  Claim C6, amended. For a missing or empty text the analyzer returns the score 0 and an
  empty \<^verbatim>\<open>details\<close> object: no flag is present, so each flag reads as undefined.
\<close>

theorem checkFormattingQuality_empty:
  "text = None \<or> text = Some [] \<Longrightarrow>
     score (checkFormattingQuality text) = 0
     \<and> details (checkFormattingQuality text) = []
     \<and> map_of (details (checkFormattingQuality text)) k = None"
  by (auto simp add: checkFormattingQuality_def)

theorem checkFormattingQuality_empty_witness:
  "score (checkFormattingQuality (Some [])) = 0
   \<and> details (checkFormattingQuality (Some [])) = []
   \<and> map_of (details (checkFormattingQuality (Some []))) ''hasBoldText'' = None
   \<and> score (checkFormattingQuality None) = 0
   \<and> details (checkFormattingQuality None) = []"
  using checkFormattingQuality_empty [of "Some []" "''hasBoldText''"]
    checkFormattingQuality_empty [of None "''hasBoldText''"]
  by simp

text \<open>
  The claim as written fails: for a missing and for an empty text the flag
  \<^verbatim>\<open>hasMainTitle\<close> is absent from the details, it is not present with the value false.
\<close>

theorem checkFormattingQuality_empty_counterexample:
  "map_of (details (checkFormattingQuality None)) ''hasMainTitle'' = None
   \<and> map_of (details (checkFormattingQuality None)) ''hasMainTitle'' \<noteq> Some (Flag False)
   \<and> map_of (details (checkFormattingQuality (Some []))) ''hasMainTitle'' = None
   \<and> map_of (details (checkFormattingQuality (Some []))) ''hasMainTitle'' \<noteq> Some (Flag False)"
  by (simp add: checkFormattingQuality_def)


section \<open>Properties of the lookups\<close>

lemma param_hd: "param ((k, v) # b) k = v"
  by (simp add: param_def)

lemma vectorRows_embedding_only:
  "vectorRows g [(''embedding'', PVec e), (''courseId'', c)]
     = vectorRows g [(''embedding'', PVec e), (''courseId'', c')]"
  by (simp add: vectorRows_def param_hd)

text \<open>
  Claim C9. For every query text, every world and every two course identifiers, also
  \<^verbatim>\<open>null\<close>, the semantic search returns the same result and leaves the same store: the
  course identifier is bound to the statement and the rows do not depend on it.
\<close>

theorem searchKnowledgeGraph_ignores_courseId:
  "fst (searchKnowledgeGraph query c1 w) = fst (searchKnowledgeGraph query c2 w)
   \<and> graphStore (snd (searchKnowledgeGraph query c1 w))
       = graphStore (snd (searchKnowledgeGraph query c2 w))"
proof -
  have v: "vectorRows g [(''embedding'', PVec e), (''courseId'', optStr c1)]
             = vectorRows g [(''embedding'', PVec e), (''courseId'', optStr c2)]" for g e
    by (rule vectorRows_embedding_only)
  show ?thesis
    unfolding searchKnowledgeGraph_def getEmbedding_def runNeo4jQuery_def evalStatement_def
    by (simp add: Let_def v split: embed_reply.split option.split list.split)
qed

lemma first_row_cases:
  "(take 1 (map doubtRow (filter P ds)) = [] \<and> (\<forall>d \<in> set ds. \<not> P d))
   \<or> (\<exists>d \<in> set ds. P d \<and> take 1 (map doubtRow (filter P ds)) = [doubtRow d])"
proof (cases "filter P ds")
  case Nil
  then show ?thesis by (simp add: filter_empty_conv)
next
  case (Cons d rest)
  then have "d \<in> set (filter P ds)" by simp
  then have "d \<in> set ds \<and> P d" by simp
  with Cons show ?thesis by auto
qed

lemma no_rows: "\<forall>d \<in> set ds. \<not> P d \<Longrightarrow> take 1 (map doubtRow (filter P ds)) = []"
  by (simp add: filter_empty_conv)

lemma below_80: "c < 80 \<Longrightarrow> \<not> atLeast80 (PNum c)"
  by (simp add: atLeast80_def)

lemma globalDoubtRows_below:
  assumes "\<forall>d \<in> set (doubts g). d_queryKey d = k \<longrightarrow> (\<exists>c. d_confidence d = PNum c \<and> c < 80)"
  shows "globalDoubtRows g [(''searchKey'', PStr k)] = []"
  unfolding globalDoubtRows_def
  by (rule no_rows) (use assms in \<open>auto simp add: param_def below_80\<close>)

lemma contentDoubtRows_below:
  assumes "\<forall>d \<in> set (doubts g). d_queryKey d = k \<longrightarrow> (\<exists>c. d_confidence d = PNum c \<and> c < 80)"
  shows "contentDoubtRows g [(''contentId'', cid), (''searchKey'', PStr k)] = []"
  unfolding contentDoubtRows_def
  by (rule no_rows) (use assms in \<open>auto simp add: param_def below_80\<close>)

lemma tcp_key: "searchKey ''  What is TCP? '' ''Networks'' = ''what is tcp?|networks''"
  by code_simp

lemma tcp_hits:
  "fst (searchExistingDoubts ''  What is TCP? '' ''Networks'' (Some ''c1'') (tcpWorld 80))
     = Some (DoubtHit (PStr ''A transport protocol.'') (PNum 80) ''content_knowledge_base'')
   \<and> fst (searchExistingDoubts ''  What is TCP? '' ''Networks'' None (tcpWorld 80))
     = Some (DoubtHit (PStr ''A transport protocol.'') (PNum 80) ''graph_db'')"
  unfolding searchExistingDoubts_def globalDoubtSearch_def runNeo4jQuery_def evalStatement_def
    tcp_key
  by (simp add: Let_def tcpWorld_def tcpDoubt_def contentDoubtRows_def globalDoubtRows_def
      param_def truthy_def optStr_def linkedTo_def atLeast80_def doubtRow_def)

text \<open>
  Claim C3. When every stored Doubt whose key is the lookup key has a confidence below 80,
  the lookup returns \<^verbatim>\<open>null\<close>, with or without a content identifier: both the statement
  scoped to the content and the global statement yield no row.
\<close>

theorem searchExistingDoubts_below_threshold:
  assumes "\<forall>d \<in> set (doubts (graphStore w)).
             d_queryKey d = searchKey query ctx \<longrightarrow> (\<exists>c. d_confidence d = PNum c \<and> c < 80)"
  shows "fst (searchExistingDoubts query ctx contentId w) = None
         \<and> contentDoubtRows (graphStore w)
             [(''contentId'', optStr contentId), (''searchKey'', PStr (searchKey query ctx))] = []
         \<and> globalDoubtRows (graphStore w) [(''searchKey'', PStr (searchKey query ctx))] = []"
proof -
  have g: "globalDoubtRows (graphStore w) [(''searchKey'', PStr (searchKey query ctx))] = []"
    using assms by (rule globalDoubtRows_below)
  have c: "contentDoubtRows (graphStore w)
             [(''contentId'', optStr contentId), (''searchKey'', PStr (searchKey query ctx))] = []"
    using assms by (rule contentDoubtRows_below)
  have "fst (searchExistingDoubts query ctx contentId w) = None"
    unfolding searchExistingDoubts_def globalDoubtSearch_def runNeo4jQuery_def evalStatement_def
    by (simp add: Let_def g c)
  with g c show ?thesis by simp
qed

theorem searchExistingDoubts_below_threshold_witness:
  "doubts (graphStore (tcpWorld 79)) = [tcpDoubt 79]
   \<and> d_queryKey (tcpDoubt 79) = searchKey ''  What is TCP? '' ''Networks''
   \<and> d_confidence (tcpDoubt 79) = PNum 79
   \<and> fst (searchExistingDoubts ''  What is TCP? '' ''Networks'' (Some ''c1'') (tcpWorld 79)) = None
   \<and> fst (searchExistingDoubts ''  What is TCP? '' ''Networks'' None (tcpWorld 79)) = None"
proof -
  have h: "\<forall>d \<in> set (doubts (graphStore (tcpWorld 79))).
      d_queryKey d = searchKey ''  What is TCP? '' ''Networks''
        \<longrightarrow> (\<exists>c. d_confidence d = PNum c \<and> c < 80)"
    by (simp add: tcpWorld_def tcpDoubt_def)
  have k: "d_queryKey (tcpDoubt 79) = searchKey ''  What is TCP? '' ''Networks''"
    by (simp add: tcp_key tcpDoubt_def)
  have d: "doubts (graphStore (tcpWorld 79)) = [tcpDoubt 79]"
    "d_confidence (tcpDoubt 79) = PNum 79"
    by (simp_all add: tcpWorld_def tcpDoubt_def)
  show ?thesis
    using k d searchExistingDoubts_below_threshold [OF h, of "Some ''c1''"]
      searchExistingDoubts_below_threshold [OF h, of None]
    by simp
qed

lemma upsert_params:
  "param (upsertBindings q a c x i) ''queryKey'' = PStr (queryKey q x)"
  "param (upsertBindings q a c x i) ''answer'' = PStr a"
  "param (upsertBindings q a c x i) ''confidence'' = PNum c"
  by (simp_all add: upsertBindings_def param_def)

lemma linkContent_fields:
  "d_queryKey (linkContent g b d) = d_queryKey d"
  "d_answer (linkContent g b d) = d_answer d"
  "d_confidence (linkContent g b d) = d_confidence d"
  by (simp_all add: linkContent_def split: pval.split)

lemma setDoubt_fields:
  "d_queryKey (setDoubt b d) = d_queryKey d"
  "d_answer (setDoubt b d) = param b ''answer''"
  "d_confidence (setDoubt b d) = param b ''confidence''"
  by (simp_all add: setDoubt_def)

lemma upsertDoubt_written:
  assumes "param b ''queryKey'' = PStr k"
  shows "(\<exists>d \<in> set (doubts (upsertDoubt g b)). d_queryKey d = k)
         \<and> (\<forall>d \<in> set (doubts (upsertDoubt g b)). d_queryKey d = k \<longrightarrow>
               d_answer d = param b ''answer'' \<and> d_confidence d = param b ''confidence'')"
proof -
  define ds where "ds = (if k \<in> set (map d_queryKey (doubts g)) then doubts g
                          else doubts g @ [newDoubt k])"
  define f where "f = (\<lambda>d. if d_queryKey d = k then linkContent g b (setDoubt b d) else d)"
  have u: "doubts (upsertDoubt g b) = map f ds"
    by (simp add: upsertDoubt_def assms ds_def f_def Let_def)
  have key: "d_queryKey (f d) = d_queryKey d" for d
    by (simp add: f_def linkContent_fields setDoubt_fields)
  have ex: "\<exists>d \<in> set ds. d_queryKey d = k"
  proof (cases "k \<in> set (map d_queryKey (doubts g))")
    case True
    then obtain d where "d \<in> set (doubts g)" "d_queryKey d = k" by auto
    with True show ?thesis unfolding ds_def by auto
  next
    case False
    have "newDoubt k \<in> set (doubts g @ [newDoubt k])" by simp
    moreover have "d_queryKey (newDoubt k) = k" by (simp add: newDoubt_def)
    ultimately show ?thesis unfolding ds_def using False by (simp only: if_False) blast
  qed
  then obtain d where d: "d \<in> set ds" "d_queryKey d = k" by blast
  have "f d \<in> set (map f ds)" using d(1) by simp
  moreover have "d_queryKey (f d) = k" using d(2) key by simp
  ultimately have one: "\<exists>d \<in> set (doubts (upsertDoubt g b)). d_queryKey d = k"
    unfolding u by blast
  have all: "\<forall>d \<in> set (doubts (upsertDoubt g b)). d_queryKey d = k \<longrightarrow>
               d_answer d = param b ''answer'' \<and> d_confidence d = param b ''confidence''"
  proof (intro ballI impI)
    fix e assume e: "e \<in> set (doubts (upsertDoubt g b))" "d_queryKey e = k"
    then obtain d0 where d0: "d0 \<in> set ds" "e = f d0" unfolding u by auto
    have "d_queryKey d0 = k" using e(2) d0(2) key by simp
    then have "e = linkContent g b (setDoubt b d0)" using d0(2) by (simp add: f_def)
    then show "d_answer e = param b ''answer'' \<and> d_confidence e = param b ''confidence''"
      by (simp add: linkContent_fields setDoubt_fields)
  qed
  from one all show ?thesis by (rule conjI)
qed

lemma saveDoubtToGraph_world:
  assumes "\<not> storeRaises w DoubtUpsert"
  shows "graphStore (saveDoubtToGraph q a c x i w)
           = upsertDoubt (graphStore w) (upsertBindings q a c x i)
         \<and> storeRaises (saveDoubtToGraph q a c x i w) = storeRaises w"
  using assms
  by (simp add: saveDoubtToGraph_def runNeo4jQuery_def evalStatement_def Let_def)

lemma doubtRow_params:
  "param (doubtRow d) ''answer'' = d_answer d"
  "param (doubtRow d) ''confidence'' = d_confidence d"
  by (simp_all add: doubtRow_def param_def)

lemma lookup_after_write:
  assumes one: "\<exists>d \<in> set (doubts (graphStore w)). d_queryKey d = searchKey q x"
    and all: "\<forall>d \<in> set (doubts (graphStore w)). d_queryKey d = searchKey q x \<longrightarrow>
               d_answer d = PStr a \<and> d_confidence d = PNum c"
    and c: "c \<ge> 80"
    and up: "\<not> storeRaises w ContentDoubtLookup" "\<not> storeRaises w GlobalDoubtLookup"
  shows "\<exists>src. fst (searchExistingDoubts q x i w) = Some (DoubtHit (PStr a) (PNum c) src)"
proof -
  let ?k = "searchKey q x"
  let ?G = "\<lambda>d. PStr (d_queryKey d) = param [(''searchKey'', PStr ?k)] ''searchKey''
                 \<and> atLeast80 (d_confidence d)"
  let ?C = "\<lambda>d. linkedTo (param [(''contentId'', optStr i), (''searchKey'', PStr ?k)] ''contentId'') d
                 \<and> PStr (d_queryKey d)
                     = param [(''contentId'', optStr i), (''searchKey'', PStr ?k)] ''searchKey''
                 \<and> atLeast80 (d_confidence d)"
  have Gk: "?G d \<Longrightarrow> d_queryKey d = ?k" for d by (simp add: param_def)
  have Ck: "?C d \<Longrightarrow> d_queryKey d = ?k" for d by (simp add: param_def)
  from one obtain d0 where d0: "d0 \<in> set (doubts (graphStore w))" "d_queryKey d0 = ?k" by blast
  with all have "d_confidence d0 = PNum c" by blast
  with d0 c have "?G d0" by (simp add: param_def atLeast80_def)
  with d0 have "\<not> (\<forall>d \<in> set (doubts (graphStore w)). \<not> ?G d)" by blast
  with first_row_cases [of ?G "doubts (graphStore w)"]
  obtain dg where dg: "dg \<in> set (doubts (graphStore w))" "?G dg"
    "globalDoubtRows (graphStore w) [(''searchKey'', PStr ?k)] = [doubtRow dg]"
    unfolding globalDoubtRows_def by blast
  have dgv: "d_answer dg = PStr a \<and> d_confidence dg = PNum c"
    using all dg(1) Gk [OF dg(2)] by blast
  have glob: "globalDoubtSearch ?k w' = (Some (DoubtHit (PStr a) (PNum c) ''graph_db''),
                 w'\<lparr> calls := calls w' @ [StoreCall GlobalDoubtLookup [(''searchKey'', PStr ?k)]] \<rparr>)"
    if "graphStore w' = graphStore w" "\<not> storeRaises w' GlobalDoubtLookup" for w'
    unfolding globalDoubtSearch_def runNeo4jQuery_def evalStatement_def
    using that dg(3) dgv by (simp add: Let_def doubtRow_params)
  show ?thesis
  proof (cases "truthy i")
    case False
    then show ?thesis
      unfolding searchExistingDoubts_def using glob [of w] up by simp
  next
    case True
    from first_row_cases [of ?C "doubts (graphStore w)"]
    consider (none) "contentDoubtRows (graphStore w)
                       [(''contentId'', optStr i), (''searchKey'', PStr ?k)] = []"
      | (some) dc where "dc \<in> set (doubts (graphStore w))" "?C dc"
          "contentDoubtRows (graphStore w)
             [(''contentId'', optStr i), (''searchKey'', PStr ?k)] = [doubtRow dc]"
      unfolding contentDoubtRows_def by blast
    then show ?thesis
    proof cases
      case none
      then show ?thesis
        unfolding searchExistingDoubts_def runNeo4jQuery_def evalStatement_def
        using True up by (simp add: Let_def glob)
    next
      case some
      have "d_answer dc = PStr a \<and> d_confidence dc = PNum c"
        using all some(1) Ck [OF some(2)] by blast
      then show ?thesis
        unfolding searchExistingDoubts_def runNeo4jQuery_def evalStatement_def
        using True up some(3) by (simp add: Let_def doubtRow_params)
    qed
  qed
qed

lemma lookup_none_below:
  assumes "\<forall>d \<in> set (doubts (graphStore w)).
             d_queryKey d = searchKey query ctx \<longrightarrow> (\<exists>c. d_confidence d = PNum c \<and> c < 80)"
  shows "fst (searchExistingDoubts query ctx contentId w) = None"
proof -
  have g: "globalDoubtRows (graphStore w) [(''searchKey'', PStr (searchKey query ctx))] = []"
    using assms by (rule globalDoubtRows_below)
  have c: "contentDoubtRows (graphStore w)
             [(''contentId'', optStr contentId), (''searchKey'', PStr (searchKey query ctx))] = []"
    using assms by (rule contentDoubtRows_below)
  show ?thesis
    unfolding searchExistingDoubts_def globalDoubtSearch_def runNeo4jQuery_def evalStatement_def
    by (simp add: Let_def g c)
qed

lemma written_doubt:
  "(\<exists>d \<in> set (doubts (upsertDoubt g (upsertBindings query answer c ctx contentId))).
       d_queryKey d = searchKey query ctx)
   \<and> (\<forall>d \<in> set (doubts (upsertDoubt g (upsertBindings query answer c ctx contentId))).
         d_queryKey d = searchKey query ctx \<longrightarrow>
           d_answer d = PStr answer \<and> d_confidence d = PNum c)"
  using upsertDoubt_written [of "upsertBindings query answer c ctx contentId"
      "queryKey query ctx" g]
  by (simp add: upsert_params searchKey_def queryKey_def)

lemma low_write_not_found:
  assumes "\<not> storeRaises w DoubtUpsert" "c < 80"
  shows "fst (searchExistingDoubts query ctx contentId'
                (saveDoubtToGraph query answer c ctx contentId w)) = None"
proof (rule lookup_none_below)
  show "\<forall>d \<in> set (doubts (graphStore (saveDoubtToGraph query answer c ctx contentId w))).
           d_queryKey d = searchKey query ctx \<longrightarrow> (\<exists>c. d_confidence d = PNum c \<and> c < 80)"
    using saveDoubtToGraph_world [OF assms(1)] written_doubt [of "graphStore w"] assms(2)
    by simp
qed

text \<open>
  Claim C10, amended. For every query and context the key that the lookup computes is the
  key under which the Doubt is upserted: the query in lower case and trimmed, followed by
  a bar and the context in lower case and trimmed exactly when the context is not the
  empty string. When the store runs the upsert, the Doubt written is stored under the
  lookup key; a lookup for the same pair returns its answer and confidence when the
  confidence written is 80 or more, and returns \<^verbatim>\<open>null\<close> when it is below 80.
\<close>

theorem doubt_key_agreement:
  "searchKey query ctx = queryKey query ctx
   \<and> queryKey query ctx
       = trim (toLowerCase query) @ (if ctx \<noteq> [] then CHR ''|'' # trim (toLowerCase ctx) else [])
   \<and> (\<not> storeRaises w DoubtUpsert \<longrightarrow>
        (\<exists>d \<in> set (doubts (graphStore (saveDoubtToGraph query answer c ctx contentId w))).
            d_queryKey d = searchKey query ctx \<and> d_answer d = PStr answer
            \<and> d_confidence d = PNum c))
   \<and> (\<not> storeRaises w DoubtUpsert \<and> \<not> storeRaises w ContentDoubtLookup
        \<and> \<not> storeRaises w GlobalDoubtLookup \<and> c \<ge> 80 \<longrightarrow>
        (\<exists>src. fst (searchExistingDoubts query ctx contentId'
                      (saveDoubtToGraph query answer c ctx contentId w))
                 = Some (DoubtHit (PStr answer) (PNum c) src)))
   \<and> (\<not> storeRaises w DoubtUpsert \<and> c < 80 \<longrightarrow>
        fst (searchExistingDoubts query ctx contentId'
               (saveDoubtToGraph query answer c ctx contentId w)) = None)"
proof -
  have eq: "searchKey query ctx = queryKey query ctx"
    by (simp add: searchKey_def queryKey_def)
  have shape: "queryKey query ctx
       = trim (toLowerCase query) @ (if ctx \<noteq> [] then CHR ''|'' # trim (toLowerCase ctx) else [])"
    by (simp add: queryKey_def)
  let ?b = "upsertBindings query answer c ctx contentId"
  let ?w = "saveDoubtToGraph query answer c ctx contentId w"
  have written: "(\<exists>d \<in> set (doubts (upsertDoubt g ?b)). d_queryKey d = searchKey query ctx)
         \<and> (\<forall>d \<in> set (doubts (upsertDoubt g ?b)). d_queryKey d = searchKey query ctx \<longrightarrow>
               d_answer d = PStr answer \<and> d_confidence d = PNum c)" for g
    using upsertDoubt_written [of ?b "queryKey query ctx" g]
    by (simp add: upsert_params eq)
  have stored: "\<exists>d \<in> set (doubts (graphStore ?w)).
            d_queryKey d = searchKey query ctx \<and> d_answer d = PStr answer
            \<and> d_confidence d = PNum c" if "\<not> storeRaises w DoubtUpsert"
    using saveDoubtToGraph_world [OF that] written [of "graphStore w"] by auto
  have found: "\<exists>src. fst (searchExistingDoubts query ctx contentId' ?w)
                 = Some (DoubtHit (PStr answer) (PNum c) src)"
    if "\<not> storeRaises w DoubtUpsert" "\<not> storeRaises w ContentDoubtLookup"
       "\<not> storeRaises w GlobalDoubtLookup" "c \<ge> 80"
  proof (rule lookup_after_write)
    show "\<exists>d \<in> set (doubts (graphStore ?w)). d_queryKey d = searchKey query ctx"
      using saveDoubtToGraph_world [OF that(1)] written [of "graphStore w"] by simp
    show "\<forall>d \<in> set (doubts (graphStore ?w)). d_queryKey d = searchKey query ctx \<longrightarrow>
               d_answer d = PStr answer \<and> d_confidence d = PNum c"
      using saveDoubtToGraph_world [OF that(1)] written [of "graphStore w"] by simp
    show "c \<ge> 80" by (rule that(4))
    show "\<not> storeRaises ?w ContentDoubtLookup" "\<not> storeRaises ?w GlobalDoubtLookup"
      using saveDoubtToGraph_world [OF that(1)] that(2,3) by simp_all
  qed
  have lost: "fst (searchExistingDoubts query ctx contentId' ?w) = None"
    if "\<not> storeRaises w DoubtUpsert" "c < 80"
    using that by (rule low_write_not_found)
  from eq shape stored found lost show ?thesis by blast
qed

theorem doubt_key_agreement_witness:
  "searchKey ''  What is TCP? '' ''Networks'' = ''what is tcp?|networks''
   \<and> queryKey ''  What is TCP? '' ''Networks'' = ''what is tcp?|networks''
   \<and> (\<exists>src. fst (searchExistingDoubts ''  What is TCP? '' ''Networks'' (Some ''c1'')
                    (saveDoubtToGraph ''  What is TCP? '' ''It moves bytes reliably.'' 90
                       ''Networks'' None (tcpWorld 79)))
               = Some (DoubtHit (PStr ''It moves bytes reliably.'') (PNum 90) src))
   \<and> fst (searchExistingDoubts ''  What is TCP? '' ''Networks'' (Some ''c1'')
            (saveDoubtToGraph ''  What is TCP? '' ''It moves bytes reliably.'' 79
               ''Networks'' None (tcpWorld 90))) = None"
proof -
  have up: "\<not> storeRaises (tcpWorld 79) DoubtUpsert \<and> \<not> storeRaises (tcpWorld 79) ContentDoubtLookup
            \<and> \<not> storeRaises (tcpWorld 79) GlobalDoubtLookup \<and> (90::rat) \<ge> 80"
    "\<not> storeRaises (tcpWorld 90) DoubtUpsert \<and> (79::rat) < 80"
    by (simp_all add: tcpWorld_def)
  show ?thesis
    using up tcp_key
      doubt_key_agreement [of "''  What is TCP? ''" "''Networks''" "tcpWorld 79"
        "''It moves bytes reliably.''" 90 None "Some ''c1''"]
      doubt_key_agreement [of "''  What is TCP? ''" "''Networks''" "tcpWorld 90"
        "''It moves bytes reliably.''" 79 None "Some ''c1''"]
    by simp
qed

text \<open>
  The claim as written fails in its conclusion: a Doubt written with confidence 79 under a
  key whose Doubt was retrievable before is stored under the same key and is not returned
  by the lookup for the same pair, with or without a content identifier.
\<close>

theorem doubt_not_retrievable_counterexample:
  "fst (searchExistingDoubts ''  What is TCP? '' ''Networks'' (Some ''c1'') (tcpWorld 80))
     = Some (DoubtHit (PStr ''A transport protocol.'') (PNum 80) ''content_knowledge_base'')
   \<and> map d_queryKey (doubts (graphStore
        (saveDoubtToGraph ''  What is TCP? '' ''It moves bytes reliably.'' 79 ''Networks''
           (Some ''c1'') (tcpWorld 80))))
      = [searchKey ''  What is TCP? '' ''Networks'']
   \<and> map d_answer (doubts (graphStore
        (saveDoubtToGraph ''  What is TCP? '' ''It moves bytes reliably.'' 79 ''Networks''
           (Some ''c1'') (tcpWorld 80))))
      = [PStr ''It moves bytes reliably.'']
   \<and> fst (searchExistingDoubts ''  What is TCP? '' ''Networks'' (Some ''c1'')
            (saveDoubtToGraph ''  What is TCP? '' ''It moves bytes reliably.'' 79 ''Networks''
               (Some ''c1'') (tcpWorld 80))) = None
   \<and> fst (searchExistingDoubts ''  What is TCP? '' ''Networks'' None
            (saveDoubtToGraph ''  What is TCP? '' ''It moves bytes reliably.'' 79 ''Networks''
               (Some ''c1'') (tcpWorld 80))) = None"
proof -
  let ?b = "upsertBindings ''  What is TCP? '' ''It moves bytes reliably.'' 79 ''Networks''
              (Some ''c1'')"
  have up: "\<not> storeRaises (tcpWorld 80) DoubtUpsert" by (simp add: tcpWorld_def)
  have low: "(79::rat) < 80" by simp
  have qk: "queryKey ''  What is TCP? '' ''Networks'' = ''what is tcp?|networks''"
    using tcp_key by (simp add: searchKey_def queryKey_def)
  have ds: "doubts (graphStore (tcpWorld 80)) = [tcpDoubt 80]" by (simp add: tcpWorld_def)
  have k: "map d_queryKey (doubts (upsertDoubt (graphStore (tcpWorld 80)) ?b))
             = [''what is tcp?|networks'']"
    by (simp add: upsertDoubt_def upsert_params qk ds tcpDoubt_def Let_def linkContent_fields
        setDoubt_fields)
  have a: "map d_answer (doubts (upsertDoubt (graphStore (tcpWorld 80)) ?b))
             = [PStr ''It moves bytes reliably.'']"
    by (simp add: upsertDoubt_def upsert_params qk ds tcpDoubt_def Let_def linkContent_fields
        setDoubt_fields)
  show ?thesis
    using tcp_hits saveDoubtToGraph_world [OF up] k a
      low_write_not_found [OF up low, of "''  What is TCP? ''" "''Networks''" "Some ''c1''"
        "''It moves bytes reliably.''" "Some ''c1''"]
      low_write_not_found [OF up low, of "''  What is TCP? ''" "''Networks''" None
        "''It moves bytes reliably.''" "Some ''c1''"]
    by (simp add: tcp_key)
qed


section \<open>Properties of the knowledge writer\<close>

lemma addEdge_fields:
  "set (edges (addEdge e g)) = insert e (set (edges g))"
  "questions (addEdge e g) = questions g"
  "answers (addEdge e g) = answers g"
  "concepts (addEdge e g) = concepts g"
  "doubts (addEdge e g) = doubts g"
  "contentIds (addEdge e g) = contentIds g"
  "courseIds (addEdge e g) = courseIds g"
  "similarity (addEdge e g) = similarity g"
  by (auto simp add: addEdge_def)

lemma mergeConcept_fields:
  "questions (mergeConcept q cid g n) = questions g"
  "answers (mergeConcept q cid g n) = answers g"
  "doubts (mergeConcept q cid g n) = doubts g"
  "contentIds (mergeConcept q cid g n) = contentIds g"
  "courseIds (mergeConcept q cid g n) = courseIds g"
  "similarity (mergeConcept q cid g n) = similarity g"
  "set (concepts (mergeConcept q cid g n)) = insert n (set (concepts g))"
  "set (edges (mergeConcept q cid g n))
     = insert (ConceptNode n, PART_OF, CourseNode cid)
         (insert (QuestionNode q, RELATES_TO, ConceptNode n) (set (edges g)))"
  by (auto simp add: mergeConcept_def addEdge_fields)

lemma foldl_mergeConcept:
  "questions (foldl (mergeConcept q cid) g ns) = questions g
   \<and> answers (foldl (mergeConcept q cid) g ns) = answers g
   \<and> doubts (foldl (mergeConcept q cid) g ns) = doubts g
   \<and> contentIds (foldl (mergeConcept q cid) g ns) = contentIds g
   \<and> courseIds (foldl (mergeConcept q cid) g ns) = courseIds g
   \<and> similarity (foldl (mergeConcept q cid) g ns) = similarity g
   \<and> set (concepts (foldl (mergeConcept q cid) g ns)) = set (concepts g) \<union> set ns
   \<and> set (edges (foldl (mergeConcept q cid) g ns))
       = set (edges g) \<union> (\<lambda>n. (ConceptNode n, PART_OF, CourseNode cid)) ` set ns
           \<union> (\<lambda>n. (QuestionNode q, RELATES_TO, ConceptNode n)) ` set ns"
proof (induction ns arbitrary: g)
  case Nil
  show ?case by simp
next
  case (Cons n ns)
  show ?case
    using Cons.IH [of "mergeConcept q cid g n"]
    by (simp add: mergeConcept_fields) blast
qed




lemma mergeContent_found:
  assumes "param b ''contentId'' = PStr rid" "rid \<in> set (contentIds g)"
  shows "snd (mergeContent q cid b g)
           = foldl (mergeConcept q cid)
               (addEdge (QuestionNode q, GENERATED_FROM_RESOURCE, ContentNode rid) g)
               (conceptNames q)"
  using assms by (simp add: mergeContent_def)

lemma mergeContent_missing:
  assumes "\<not> (\<exists>rid. param b ''contentId'' = PStr rid \<and> rid \<in> set (contentIds g))"
  shows "mergeContent q cid b g = ([], g)"
proof (cases "param b ''contentId''")
  case (PStr rid)
  with assms have "rid \<notin> set (contentIds g)" by simp
  with PStr show ?thesis by (simp add: mergeContent_def)
qed (simp_all add: mergeContent_def)

lemma mergeContent_keeps:
  "questions (snd (mergeContent q cid b g)) = questions g
   \<and> answers (snd (mergeContent q cid b g)) = answers g
   \<and> doubts (snd (mergeContent q cid b g)) = doubts g
   \<and> set (edges g) \<subseteq> set (edges (snd (mergeContent q cid b g)))"
proof (cases "\<exists>rid. param b ''contentId'' = PStr rid \<and> rid \<in> set (contentIds g)")
  case True
  then obtain rid where r: "param b ''contentId'' = PStr rid" "rid \<in> set (contentIds g)"
    by blast
  let ?g = "addEdge (QuestionNode q, GENERATED_FROM_RESOURCE, ContentNode rid) g"
  note F = foldl_mergeConcept [of q cid ?g "conceptNames q"]
  have "set (edges g) \<subseteq> set (edges ?g)" by (simp add: addEdge_fields) blast
  also have "\<dots> \<subseteq> set (edges (foldl (mergeConcept q cid) ?g (conceptNames q)))"
    using F by blast
  finally show ?thesis
    unfolding mergeContent_found [OF r] using F by (simp add: addEdge_fields)
next
  case False
  then show ?thesis by (simp add: mergeContent_missing)
qed

lemma mergeContent_present:
  assumes "param b ''contentId'' = PStr rid" "rid \<in> set (contentIds g)"
  shows "(QuestionNode q, GENERATED_FROM_RESOURCE, ContentNode rid)
           \<in> set (edges (snd (mergeContent q cid b g)))
         \<and> (\<forall>n \<in> set (conceptNames q).
               n \<in> set (concepts (snd (mergeContent q cid b g)))
               \<and> (QuestionNode q, RELATES_TO, ConceptNode n)
                   \<in> set (edges (snd (mergeContent q cid b g)))
               \<and> (ConceptNode n, PART_OF, CourseNode cid)
                   \<in> set (edges (snd (mergeContent q cid b g))))"
proof -
  let ?g = "addEdge (QuestionNode q, GENERATED_FROM_RESOURCE, ContentNode rid) g"
  note F = foldl_mergeConcept [of q cid ?g "conceptNames q"]
  have e: "(QuestionNode q, GENERATED_FROM_RESOURCE, ContentNode rid)
             \<in> set (edges (foldl (mergeConcept q cid) ?g (conceptNames q)))"
    using F by (simp add: addEdge_fields)
  have c: "n \<in> set (concepts (foldl (mergeConcept q cid) ?g (conceptNames q)))
           \<and> (QuestionNode q, RELATES_TO, ConceptNode n)
               \<in> set (edges (foldl (mergeConcept q cid) ?g (conceptNames q)))
           \<and> (ConceptNode n, PART_OF, CourseNode cid)
               \<in> set (edges (foldl (mergeConcept q cid) ?g (conceptNames q)))"
    if "n \<in> set (conceptNames q)" for n
    using F that by simp
  show ?thesis
    unfolding mergeContent_found [OF assms] using e c by blast
qed

lemma mergeCourse_keeps:
  "questions (snd (mergeCourse q b g)) = questions g
   \<and> answers (snd (mergeCourse q b g)) = answers g
   \<and> doubts (snd (mergeCourse q b g)) = doubts g
   \<and> set (edges g) \<subseteq> set (edges (snd (mergeCourse q b g)))"
proof (cases "\<exists>cid. param b ''courseId'' = PStr cid \<and> cid \<in> set (courseIds g)")
  case True
  then obtain cid where c: "param b ''courseId'' = PStr cid" "cid \<in> set (courseIds g)" by blast
  have m: "mergeCourse q b g
             = mergeContent q cid b (addEdge (QuestionNode q, RELATES_TO, CourseNode cid) g)"
    using c by (simp add: mergeCourse_def)
  let ?g = "addEdge (QuestionNode q, RELATES_TO, CourseNode cid) g"
  note K = mergeContent_keeps [of q cid b ?g]
  have "set (edges g) \<subseteq> set (edges ?g)" by (simp add: addEdge_fields) blast
  also have "\<dots> \<subseteq> set (edges (snd (mergeContent q cid b ?g)))" using K by blast
  finally show ?thesis
    unfolding m using K by (simp add: addEdge_fields)
next
  case False
  have "mergeCourse q b g = ([], g)"
  proof (cases "param b ''courseId''")
    case (PStr cid)
    with False have "cid \<notin> set (courseIds g)" by simp
    with PStr show ?thesis by (simp add: mergeCourse_def)
  qed (simp_all add: mergeCourse_def)
  then show ?thesis by simp
qed











lemma saved_question_is_found:
  "fst (searchKnowledgeGraph ''Explain routing tables'' None
          (snd (saveToKnowledgeGraph routingParams (tcpWorld 79))))
     = KGHit (PStr ''Explain routing tables'') (PStr ''They map prefixes to hops.'') (PNum 100)"
  by code_simp

lemma saving_twice:
  "questions (savedGraph routingParams (snd (saveToKnowledgeGraph routingParams (tcpWorld 79))))
     = questions (savedGraph routingParams (tcpWorld 79))
   \<and> answers (savedGraph routingParams (snd (saveToKnowledgeGraph routingParams (tcpWorld 79))))
     = answers (savedGraph routingParams (tcpWorld 79))
   \<and> concepts (savedGraph routingParams (snd (saveToKnowledgeGraph routingParams (tcpWorld 79))))
     = concepts (savedGraph routingParams (tcpWorld 79))
   \<and> edges (savedGraph routingParams (snd (saveToKnowledgeGraph routingParams (tcpWorld 79))))
     = edges (savedGraph routingParams (tcpWorld 79))
   \<and> concepts (savedGraph routingParams (tcpWorld 79)) = [''Explain'', ''Routing'', ''Tables'']"
  by code_simp


text \<open>
  The merge is a find-or-create: sent again with the same bindings, the statement leaves the
  store as the first run left it.
\<close>

lemma addEdge_present: "e \<in> set (edges g) \<Longrightarrow> addEdge e g = g"
  by (simp add: addEdge_def)

lemma mergeConcept_again:
  assumes "n \<in> set (concepts g)" "(QuestionNode q, RELATES_TO, ConceptNode n) \<in> set (edges g)"
    "(ConceptNode n, PART_OF, CourseNode cid) \<in> set (edges g)"
  shows "mergeConcept q cid g n = g"
  using assms by (simp add: mergeConcept_def addEdge_present)

lemma foldl_mergeConcept_again:
  assumes "\<forall>n \<in> set ns. n \<in> set (concepts g)
             \<and> (QuestionNode q, RELATES_TO, ConceptNode n) \<in> set (edges g)
             \<and> (ConceptNode n, PART_OF, CourseNode cid) \<in> set (edges g)"
  shows "foldl (mergeConcept q cid) g ns = g"
  using assms by (induction ns) (simp_all add: mergeConcept_again)

lemma upsertQuestion_again: "upsertQuestion t e (upsertQuestion t e qs) = upsertQuestion t e qs"
proof (cases "t \<in> set (map q_text qs)")
  case True
  let ?f = "\<lambda>n. if q_text n = t then n\<lparr> q_embedding := e \<rparr> else n"
  have u: "upsertQuestion t e qs = map ?f qs" using True by (simp add: upsertQuestion_def)
  have k: "map q_text (map ?f qs) = map q_text qs" by (induction qs) simp_all
  have "upsertQuestion t e (map ?f qs) = map ?f (map ?f qs)"
    using True k by (simp add: upsertQuestion_def del: map_map)
  also have "\<dots> = map ?f qs" by (induction qs) simp_all
  finally show ?thesis unfolding u .
next
  case False
  let ?f = "\<lambda>n. if q_text n = t then n\<lparr> q_embedding := e \<rparr> else n"
  have u: "upsertQuestion t e qs = qs @ [\<lparr> q_text = t, q_embedding = e \<rparr>]"
    using False by (simp add: upsertQuestion_def)
  have m: "map ?f qs = qs" using False by (induction qs) auto
  have "upsertQuestion t e (qs @ [\<lparr> q_text = t, q_embedding = e \<rparr>])
          = map ?f (qs @ [\<lparr> q_text = t, q_embedding = e \<rparr>])"
    by (simp add: upsertQuestion_def)
  also have "\<dots> = qs @ [\<lparr> q_text = t, q_embedding = e \<rparr>]" using m by simp
  finally show ?thesis unfolding u .
qed

lemma upsertAnswer_again: "upsertAnswer t c (upsertAnswer t c as) = upsertAnswer t c as"
proof (cases "t \<in> set (map a_text as)")
  case True
  let ?f = "\<lambda>n. if a_text n = t
                  then n\<lparr> a_confidence := c, a_source := PStr ''AI_GENERATED'' \<rparr> else n"
  have u: "upsertAnswer t c as = map ?f as" using True by (simp add: upsertAnswer_def)
  have k: "map a_text (map ?f as) = map a_text as" by (induction as) simp_all
  have "upsertAnswer t c (map ?f as) = map ?f (map ?f as)"
    using True k by (simp add: upsertAnswer_def del: map_map)
  also have "\<dots> = map ?f as" by (induction as) simp_all
  finally show ?thesis unfolding u .
next
  case False
  let ?f = "\<lambda>n. if a_text n = t
                  then n\<lparr> a_confidence := c, a_source := PStr ''AI_GENERATED'' \<rparr> else n"
  let ?new = "\<lparr> a_text = t, a_confidence = c, a_source = PStr ''AI_GENERATED'' \<rparr>"
  have u: "upsertAnswer t c as = as @ [?new]"
    using False by (simp add: upsertAnswer_def)
  have m: "map ?f as = as" using False by (induction as) auto
  have "upsertAnswer t c (as @ [?new]) = map ?f (as @ [?new])"
    by (simp add: upsertAnswer_def)
  also have "\<dots> = as @ [?new]" using m by simp
  finally show ?thesis unfolding u .
qed

lemma mergedPair_again:
  assumes "questions h = upsertQuestion q e qs" "answers h = upsertAnswer a c as"
    "(QuestionNode q, ANSWERS, AnswerNode a) \<in> set (edges h)"
  shows "mergedPair h q a e c = h"
proof -
  have "h\<lparr> questions := upsertQuestion q e (questions h),
           answers := upsertAnswer a c (answers h) \<rparr> = h"
    by (simp add: assms(1,2) upsertQuestion_again upsertAnswer_again)
  then show ?thesis using assms(3) by (simp add: mergedPair_def addEdge_present)
qed

lemma mergeContent_ids:
  "contentIds (snd (mergeContent q cid b g)) = contentIds g
   \<and> courseIds (snd (mergeContent q cid b g)) = courseIds g"
proof (cases "\<exists>rid. param b ''contentId'' = PStr rid \<and> rid \<in> set (contentIds g)")
  case True
  then obtain rid where r: "param b ''contentId'' = PStr rid" "rid \<in> set (contentIds g)"
    by blast
  show ?thesis
    unfolding mergeContent_found [OF r]
    using foldl_mergeConcept [of q cid
        "addEdge (QuestionNode q, GENERATED_FROM_RESOURCE, ContentNode rid) g" "conceptNames q"]
    by (simp add: addEdge_fields)
next
  case False
  then show ?thesis by (simp add: mergeContent_missing)
qed

lemma mergeContent_again:
  "snd (mergeContent q cid b (snd (mergeContent q cid b g))) = snd (mergeContent q cid b g)"
proof (cases "\<exists>rid. param b ''contentId'' = PStr rid \<and> rid \<in> set (contentIds g)")
  case True
  then obtain rid where r: "param b ''contentId'' = PStr rid" "rid \<in> set (contentIds g)"
    by blast
  let ?h = "snd (mergeContent q cid b g)"
  have r': "rid \<in> set (contentIds ?h)" using r(2) mergeContent_ids [of q cid b g] by simp
  note P = mergeContent_present [OF r, of q cid]
  have a: "addEdge (QuestionNode q, GENERATED_FROM_RESOURCE, ContentNode rid) ?h = ?h"
    using P by (simp add: addEdge_present)
  have "snd (mergeContent q cid b ?h) = foldl (mergeConcept q cid) ?h (conceptNames q)"
    unfolding mergeContent_found [OF r(1) r'] a ..
  also have "\<dots> = ?h" using P by (intro foldl_mergeConcept_again) blast
  finally show ?thesis .
next
  case False
  then show ?thesis by (simp add: mergeContent_missing)
qed

lemma mergeCourse_again:
  "snd (mergeCourse q b (snd (mergeCourse q b g))) = snd (mergeCourse q b g)"
proof (cases "\<exists>cid. param b ''courseId'' = PStr cid \<and> cid \<in> set (courseIds g)")
  case True
  then obtain cid where c: "param b ''courseId'' = PStr cid" "cid \<in> set (courseIds g)" by blast
  let ?g = "addEdge (QuestionNode q, RELATES_TO, CourseNode cid) g"
  let ?h = "snd (mergeContent q cid b ?g)"
  have m: "mergeCourse q b g = mergeContent q cid b ?g"
    using c by (simp add: mergeCourse_def)
  have c': "cid \<in> set (courseIds ?h)"
    using c(2) mergeContent_ids [of q cid b ?g] by (simp add: addEdge_fields)
  have "(QuestionNode q, RELATES_TO, CourseNode cid) \<in> set (edges ?g)"
    by (simp add: addEdge_fields)
  then have "(QuestionNode q, RELATES_TO, CourseNode cid) \<in> set (edges ?h)"
    using mergeContent_keeps [of q cid b ?g] by blast
  then have a: "addEdge (QuestionNode q, RELATES_TO, CourseNode cid) ?h = ?h"
    by (rule addEdge_present)
  have "mergeCourse q b ?h = mergeContent q cid b ?h"
    using c(1) c' by (simp add: mergeCourse_def a)
  then show ?thesis unfolding m by (simp add: mergeContent_again)
next
  case False
  have "mergeCourse q b g = ([], g)"
  proof (cases "param b ''courseId''")
    case (PStr cid)
    with False have "cid \<notin> set (courseIds g)" by simp
    with PStr show ?thesis by (simp add: mergeCourse_def)
  qed (simp_all add: mergeCourse_def)
  then show ?thesis by simp
qed

lemma mergeSubgraph_again:
  "snd (mergeSubgraph (snd (mergeSubgraph g b)) b) = snd (mergeSubgraph g b)"
proof (cases "\<exists>q a. param b ''query'' = PStr q \<and> param b ''answer'' = PStr a")
  case True
  then obtain q a where qa: "param b ''query'' = PStr q" "param b ''answer'' = PStr a" by blast
  let ?g1 = "mergedPair g q a (param b ''embedding'') (param b ''confidence'')"
  let ?h = "snd (mergeCourse q b ?g1)"
  have s: "mergeSubgraph g' b
             = mergeCourse q b (mergedPair g' q a (param b ''embedding'') (param b ''confidence''))"
    for g'
    by (simp add: mergeSubgraph_def qa)
  note K = mergeCourse_keeps [of q b ?g1]
  have "(QuestionNode q, ANSWERS, AnswerNode a) \<in> set (edges ?g1)"
    by (simp add: mergedPair_def addEdge_fields)
  then have e: "(QuestionNode q, ANSWERS, AnswerNode a) \<in> set (edges ?h)" using K by blast
  have "questions ?h = upsertQuestion q (param b ''embedding'') (questions g)"
    "answers ?h = upsertAnswer a (param b ''confidence'') (answers g)"
    using K by (simp_all add: mergedPair_def addEdge_fields)
  then have "mergedPair ?h q a (param b ''embedding'') (param b ''confidence'') = ?h"
    using e by (rule mergedPair_again)
  then show ?thesis by (simp add: s mergeCourse_again)
next
  case False
  have "mergeSubgraph g' b = ([], g')" for g'
    using False by (cases "param b ''query''"; cases "param b ''answer''")
      (simp_all add: mergeSubgraph_def)
  then show ?thesis by simp
qed


section \<open>Properties of the tutor gateway\<close>

lemma askGroq_error_generic:
  "askGroq env q c v u t l n s k = Inl e \<Longrightarrow> e = Error ''AI Tutor is currently unavailable.''"
  by (auto simp add: askGroq_def split: sum.splits)

lemma prompt_plain:
  "systemPrompt env q [] l n s
     = Inr (AdaptivePrompt (languageInstruction l n) n (currentContext s []))"
  by (simp add: systemPrompt_def isStrictRegion_def)

lemma ask_succeeds:
  "\<exists>r. ask (tutorEnv (Some ''k'') (Answered (Some ''### Hello''))) = Inr r
        \<and> explanation r = ''### Hello'' \<and> source r = ''groq_llama''"
  by (simp add: ask_def askGroq_def askGroqTry_def tutorEnv_def orElse_def truthy_def
      Let_def prompt_plain isVisionMode_of_def)

text \<open>
  Claim C1. The body of \<^verbatim>\<open>askGroq\<close> raises a distinct error for a missing key, for a
  rejected key (401) and for a rate or size limit (429, 413); the handler around the body
  replaces each of them, like any other failure (500), by the one generic error, so the
  caller cannot tell the kinds apart.
\<close>

theorem askGroq_masks_error_kinds:
  "askTry (tutorEnv None (Answered (Some ''ok''))) = Inl (Error ''NO_API_KEY'')
   \<and> ask (tutorEnv None (Answered (Some ''ok''))) = Inl (Error ''AI Tutor is currently unavailable.'')
   \<and> askTry (tutorEnv (Some ''k'') (Rejected (Some 401))) = Inl (Error ''INVALID_API_KEY'')
   \<and> ask (tutorEnv (Some ''k'') (Rejected (Some 401))) = Inl (Error ''AI Tutor is currently unavailable.'')
   \<and> askTry (tutorEnv (Some ''k'') (Rejected (Some 429))) = Inl (Error ''API_LIMIT_REACHED'')
   \<and> ask (tutorEnv (Some ''k'') (Rejected (Some 429))) = Inl (Error ''AI Tutor is currently unavailable.'')
   \<and> askTry (tutorEnv (Some ''k'') (Rejected (Some 413))) = Inl (Error ''API_LIMIT_REACHED'')
   \<and> ask (tutorEnv (Some ''k'') (Rejected (Some 413))) = Inl (Error ''AI Tutor is currently unavailable.'')
   \<and> askTry (tutorEnv (Some ''k'') (Rejected (Some 500))) = Inl (HttpError (Some 500))
   \<and> ask (tutorEnv (Some ''k'') (Rejected (Some 500))) = Inl (Error ''AI Tutor is currently unavailable.'')"
  by (simp add: ask_def askTry_def askGroq_def askGroqTry_def tutorEnv_def orElse_def truthy_def
      Let_def prompt_plain postError_def)



lemma region_prompt_null_grounding:
  "systemPrompt (tutorEnv None (Rejected None)) ''q'' ''STRICT_REGION_CONTEXT: null''
     ''english'' ''Student'' [] = Inl TypeError"
  by (simp add: systemPrompt_def isStrictRegion_def gc_def rawGrounding_def tutorEnv_def)



end
